theory Spec2Isabelle
  imports Complex_Main "HOL-Library.Char_ord" "HOL-Library.List_Lexorder"
    "HOL-Library.AList" "HOL-Library.Multiset" "HOL-Library.Log_Nat"
begin

section \<open>Values, exceptions and the runtime\<close>

text \<open>
  The script \<^verbatim>\<open>scripts/mp_pl_comparer.py\<close> works on what \<^verbatim>\<open>json.load\<close>
  returns. A parsed document is a value of \<open>json\<close>: \<open>JNull\<close> is Python's \<^verbatim>\<open>None\<close>,
  \<open>JObj\<close> is a \<^verbatim>\<open>dict\<close> given by its items in insertion order (keys are distinct, as
  in any dict), \<open>JFloat\<close> is a finite float given by its value. A Python \<^verbatim>\<open>str\<close> is
  the list of its characters.
\<close>

datatype json =
    JNull
  | JBool bool
  | JInt int
  | JFloat rat
  | JStr string
  | JArr "json list"
  | JObj "(string \<times> json) list"

datatype py_exception =
    FileNotFoundError
  | IsADirectoryError
  | NotADirectoryError
  | FileExistsError
  | JSONDecodeError
  | AttributeError
  | TypeError
  | KeyError
  | IndexError

text \<open>
  What the interpreter and its library supply, and the script does not define: the clock,
  \<^verbatim>\<open>str()\<close> of a value that is not a string (used inside f-strings), and the float
  operations of line 148. They are parameters of the model. The statements about the
  match rate are for a runtime whose float operations are Python's, which are defined
  below; all other statements hold for every runtime.
\<close>

record runtime =
  utc_now_iso :: string
  py_str :: "json \<Rightarrow> string"
  truediv :: "int \<Rightarrow> int \<Rightarrow> rat"
  float_mul :: "rat \<Rightarrow> int \<Rightarrow> rat"
  round_ndigits :: "rat \<Rightarrow> nat \<Rightarrow> rat"

subsection \<open>Python's float operations\<close>

text \<open>
  A Python float is an IEEE 754 binary64 number: 53 significant bits, the last of them
  worth at least \<open>2 powi - 1074\<close>, and every operation gives the representable number
  nearest to the exact result, a tie going to the even significand. \<open>to_double\<close> is this
  rounding, for arguments below the overflow threshold (the script divides a count by a
  larger count and multiplies by 100).
\<close>

definition round_half_even :: "rat \<Rightarrow> int" where
  "round_half_even x =
     (let f = \<lfloor>x\<rfloor>; d = x - of_int f
      in if d < 1 / 2 then f else if 1 / 2 < d then f + 1 else if even f then f else f + 1)"

text \<open>The exponent of the leading bit of a positive number.\<close>

definition floor_log2 :: "rat \<Rightarrow> int" where
  "floor_log2 x =
     (case quotient_of x of
        (p, q) \<Rightarrow> (let e0 = bitlen p - bitlen q in if 2 powi e0 \<le> x then e0 else e0 - 1))"

definition to_double :: "rat \<Rightarrow> rat" where
  "to_double x =
     (if x = 0 then 0
      else (let e = max (floor_log2 \<bar>x\<bar> - 52) (- 1074)
            in sgn x * of_int (round_half_even (\<bar>x\<bar> / 2 powi e)) * 2 powi e))"

text \<open>
  \<^verbatim>\<open>a / b\<close> on two integers (with \<open>b\<close> not 0) is the correctly rounded quotient;
  \<^verbatim>\<open>x * k\<close> on a float and an integer is the rounded product; \<^verbatim>\<open>round(x, n)\<close> rounds the
  exact value of \<open>x\<close> to \<open>n\<close> decimal places, a tie going to the even digit, and gives the
  float nearest to that decimal number.
\<close>

definition py_truediv :: "int \<Rightarrow> int \<Rightarrow> rat" where
  "py_truediv a b = to_double (of_int a / of_int b)"

definition py_float_mul :: "rat \<Rightarrow> int \<Rightarrow> rat" where
  "py_float_mul x k = to_double (x * of_int k)"

definition py_round :: "rat \<Rightarrow> nat \<Rightarrow> rat" where
  "py_round x n = to_double (of_int (round_half_even (x * 10 ^ n)) / 10 ^ n)"

text \<open>A runtime whose float operations are these.\<close>

definition ieee_floats :: "runtime \<Rightarrow> bool" where
  "ieee_floats rt =
     (truediv rt = py_truediv \<and> float_mul rt = py_float_mul \<and> round_ndigits rt = py_round)"

subsection \<open>Operations on values\<close>

text \<open>\<^verbatim>\<open>f"{v}"\<close>: a string is inserted as it is, any other value through \<^verbatim>\<open>str()\<close>.\<close>

definition fmt :: "runtime \<Rightarrow> json \<Rightarrow> string" where
  "fmt rt v = (case v of JStr s \<Rightarrow> s | _ \<Rightarrow> py_str rt v)"

text \<open>\<^verbatim>\<open>not v\<close> is false exactly on the truthy values.\<close>

fun truthy :: "json \<Rightarrow> bool" where
  "truthy JNull = False"
| "truthy (JBool b) = b"
| "truthy (JInt i) = (i \<noteq> 0)"
| "truthy (JFloat r) = (r \<noteq> 0)"
| "truthy (JStr s) = (s \<noteq> [])"
| "truthy (JArr xs) = (xs \<noteq> [])"
| "truthy (JObj kvs) = (kvs \<noteq> [])"

text \<open>\<^verbatim>\<open>d.get(k, default)\<close>: only a dict has \<^verbatim>\<open>get\<close>.\<close>

fun dict_get :: "json \<Rightarrow> string \<Rightarrow> json \<Rightarrow> py_exception + json" where
  "dict_get (JObj kvs) k dflt = Inr (case map_of kvs k of Some v \<Rightarrow> v | None \<Rightarrow> dflt)"
| "dict_get _ k dflt = Inl AttributeError"

text \<open>
  \<^verbatim>\<open>v[0]\<close>: the first element of a list, the first character of a string (itself a
  string); a dict parsed from JSON has string keys only, so the key 0 is missing; nothing
  else can be subscripted.
\<close>

fun subscript0 :: "json \<Rightarrow> py_exception + json" where
  "subscript0 (JArr (x # xs)) = Inr x"
| "subscript0 (JArr []) = Inl IndexError"
| "subscript0 (JStr (c # cs)) = Inr (JStr [c])"
| "subscript0 (JStr []) = Inl IndexError"
| "subscript0 (JObj kvs) = Inl KeyError"
| "subscript0 _ = Inl TypeError"

text \<open>
  \<^verbatim>\<open>v[:n]\<close> and \<^verbatim>\<open>v[-n:]\<close>: slices of a string or a list never raise and are cut at
  the ends of the sequence; a dict takes the slice as a key and raises (TypeError before
  Python 3.12, where a slice is not hashable); other values cannot be subscripted.
\<close>

fun slice_first :: "nat \<Rightarrow> json \<Rightarrow> py_exception + json" where
  "slice_first n (JStr s) = Inr (JStr (take n s))"
| "slice_first n (JArr xs) = Inr (JArr (take n xs))"
| "slice_first n _ = Inl TypeError"

definition last_n :: "nat \<Rightarrow> 'a list \<Rightarrow> 'a list" where
  "last_n n xs = drop (length xs - n) xs"

fun slice_last :: "nat \<Rightarrow> json \<Rightarrow> py_exception + json" where
  "slice_last n (JStr s) = Inr (JStr (last_n n s))"
| "slice_last n (JArr xs) = Inr (JArr (last_n n xs))"
| "slice_last n _ = Inl TypeError"

text \<open>\<^verbatim>\<open>for x in v\<close> over a list or a string (the two results of a slice).\<close>

fun iter_items :: "json \<Rightarrow> json list" where
  "iter_items (JArr xs) = xs"
| "iter_items (JStr s) = map (\<lambda>c. JStr [c]) s"
| "iter_items _ = []"

text \<open>\<^verbatim>\<open>s.startswith(p)\<close>, \<^verbatim>\<open>s.endswith(p)\<close>, \<^verbatim>\<open>sep.join(xs)\<close>.\<close>

definition startswith :: "string \<Rightarrow> string \<Rightarrow> bool" where
  "startswith s p = (take (length p) s = p)"

definition endswith :: "string \<Rightarrow> string \<Rightarrow> bool" where
  "endswith s p = (length p \<le> length s \<and> drop (length s - length p) s = p)"

fun str_join :: "string \<Rightarrow> string list \<Rightarrow> string" where
  "str_join sep [] = []"
| "str_join sep [x] = x"
| "str_join sep (x # y # ys) = x @ sep @ str_join sep (y # ys)"

text \<open>
  \<^verbatim>\<open>s.replace(old, "")\<close> for a non-empty \<open>old\<close>: every occurrence, scanning from the
  left, is removed.
\<close>

function remove_all :: "string \<Rightarrow> string \<Rightarrow> string" where
  "remove_all old [] = []"
| "remove_all old (c # cs) =
     (if old \<noteq> [] \<and> startswith (c # cs) old
      then remove_all old (drop (length old) (c # cs))
      else c # remove_all old cs)"
  by pat_completeness auto
termination
  by (relation "measure (\<lambda>(old, s). length s)") auto

section \<open>The matcher (lines 57 to 80)\<close>

text \<open>
  The dict \<^verbatim>\<open>match_info\<close> of lines 72 to 78; its keys \<^verbatim>\<open>area\<close>, \<^verbatim>\<open>mp_number\<close> and
  \<^verbatim>\<open>mp_party\<close> carry the prefix \<open>m_\<close> here, the Row of lines 88 to 94 has keys of the
  same names.
\<close>

record match_info =
  m_area :: string
  m_mp_number :: string
  m_mp_party :: json
  pl_rank :: json
  pl_party_code :: json

text \<open>
  The loop of lines 60 to 80 over the sliced entries. \<open>matches\<close> is the area's list of
  formatted matches, \<open>all_matches\<close> the list shared by all areas; both grow together. An
  exception leaves the loop at once, with what had been appended before it.
\<close>

fun scan_pl :: "runtime \<Rightarrow> string \<Rightarrow> string \<Rightarrow> json \<Rightarrow> json list
    \<Rightarrow> string list \<Rightarrow> match_info list
    \<Rightarrow> string list \<times> match_info list \<times> py_exception option" where
  "scan_pl rt area_code mp_num mp_pty [] matches all_matches = (matches, all_matches, None)"
| "scan_pl rt area_code mp_num mp_pty (pl_entry # rest) matches all_matches =
     (case dict_get pl_entry ''partyCode'' (JStr []) of
        Inl e \<Rightarrow> (matches, all_matches, Some e)
      | Inr pl_code \<Rightarrow>
         (case slice_last 2 pl_code of
            Inl e \<Rightarrow> (matches, all_matches, Some e)
          | Inr last_2 \<Rightarrow>
              if last_2 = JStr ''06'' \<or> last_2 = JStr ''09''
              then scan_pl rt area_code mp_num mp_pty rest matches all_matches
              else if last_2 = JStr mp_num
              then (case dict_get pl_entry ''rank'' JNull of
                      Inl e \<Rightarrow> (matches, all_matches, Some e)
                    | Inr rank \<Rightarrow>
                        scan_pl rt area_code mp_num mp_pty rest
                          (matches @ [''Rank '' @ fmt rt rank @ '' (Party List '' @ fmt rt last_2 @ '')''])
                          (all_matches @ [\<lparr>m_area = area_code, m_mp_number = mp_num, m_mp_party = mp_pty,
                                           pl_rank = rank, pl_party_code = pl_code\<rparr>]))
              else scan_pl rt area_code mp_num mp_pty rest matches all_matches))"

text \<open>
  Lines 57 to 80 for one area: the \<^verbatim>\<open>entries\<close> of the PL document (default the empty
  list), cut to the first 7, then the loop.
\<close>

definition matcher :: "runtime \<Rightarrow> string \<Rightarrow> string \<Rightarrow> json \<Rightarrow> json \<Rightarrow> match_info list
    \<Rightarrow> string list \<times> match_info list \<times> py_exception option" where
  "matcher rt area_code mp_num mp_pty pl_data all_matches =
     (case dict_get pl_data ''entries'' (JArr []) of
        Inl e \<Rightarrow> ([], all_matches, Some e)
      | Inr ents \<Rightarrow>
         (case slice_first 7 ents of
            Inl e \<Rightarrow> ([], all_matches, Some e)
          | Inr pl_entries \<Rightarrow>
              scan_pl rt area_code mp_num mp_pty (iter_items pl_entries) [] all_matches))"

section \<open>The file system\<close>

text \<open>
  A path names a directory or a file; a file holds a JSON document, or text that
  \<^verbatim>\<open>json.load\<close> rejects. The paths of the script are relative, with \<^verbatim>\<open>/\<close> between the
  components.
\<close>

datatype contents = Corrupt | Document json

datatype node = File contents | Dir

type_synonym fs = "(string \<times> node) list"

definition path_exists :: "fs \<Rightarrow> string \<Rightarrow> bool" where
  "path_exists fs p = (map_of fs p \<noteq> None)"

text \<open>\<^verbatim>\<open>os.path.join(d, n)\<close> for a directory without trailing slash and a relative name.\<close>

definition path_join :: "string \<Rightarrow> string \<Rightarrow> string" where
  "path_join d n = d @ ''/'' @ n"

definition child_names :: "string \<Rightarrow> string \<Rightarrow> string list" where
  "child_names d p =
     (let n = drop (length d + 1) p
      in if startswith p (d @ ''/'') \<and> n \<noteq> [] \<and> CHR ''/'' \<notin> set n then [n] else [])"

text \<open>\<^verbatim>\<open>os.listdir(d)\<close>: the names directly below \<open>d\<close>, each once, in no promised order.\<close>

definition listdir :: "fs \<Rightarrow> string \<Rightarrow> py_exception + string list" where
  "listdir fs d =
     (case map_of fs d of
        None \<Rightarrow> Inl FileNotFoundError
      | Some (File c) \<Rightarrow> Inl NotADirectoryError
      | Some Dir \<Rightarrow> Inr (remdups (concat (map (\<lambda>(p, nd). child_names d p) fs))))"

text \<open>\<^verbatim>\<open>with open(p, "r") as f: json.load(f)\<close>.\<close>

definition read_json :: "fs \<Rightarrow> string \<Rightarrow> py_exception + json" where
  "read_json fs p =
     (case map_of fs p of
        None \<Rightarrow> Inl FileNotFoundError
      | Some Dir \<Rightarrow> Inl IsADirectoryError
      | Some (File Corrupt) \<Rightarrow> Inl JSONDecodeError
      | Some (File (Document j)) \<Rightarrow> Inr j)"

definition dirname :: "string \<Rightarrow> string" where
  "dirname p = rev (drop 1 (dropWhile (\<lambda>c. c \<noteq> CHR ''/'') (rev p)))"

text \<open>
  \<^verbatim>\<open>with open(p, "w") as f: json.dump(j, f)\<close>: the file is created or replaced; the
  directory it goes into must be there.
\<close>

definition write_json :: "fs \<Rightarrow> string \<Rightarrow> json \<Rightarrow> py_exception + fs" where
  "write_json fs p j =
     (case map_of fs p of
        Some Dir \<Rightarrow> Inl IsADirectoryError
      | _ \<Rightarrow>
         (case map_of fs (dirname p) of
            None \<Rightarrow> Inl FileNotFoundError
          | Some (File c) \<Rightarrow> Inl NotADirectoryError
          | Some Dir \<Rightarrow> Inr (AList.update p (File (Document j)) fs)))"

text \<open>
  \<^verbatim>\<open>os.makedirs(p, exist_ok=True)\<close>: every missing directory on the way to \<open>p\<close> is
  created, an existing directory is kept, a file in the way raises.
\<close>

definition ancestors :: "string \<Rightarrow> string list" where
  "ancestors p = map (\<lambda>i. take i p) (filter (\<lambda>i. p ! i = CHR ''/'') [1..<length p]) @ [p]"

fun mkdirs :: "fs \<Rightarrow> string list \<Rightarrow> py_exception + fs" where
  "mkdirs fs [] = Inr fs"
| "mkdirs fs (d # ds) =
     (case map_of fs d of
        None \<Rightarrow> mkdirs (fs @ [(d, Dir)]) ds
      | Some Dir \<Rightarrow> mkdirs fs ds
      | Some (File c) \<Rightarrow> Inl (if ds = [] then FileExistsError else NotADirectoryError))"

definition makedirs :: "fs \<Rightarrow> string \<Rightarrow> py_exception + fs" where
  "makedirs fs p = mkdirs fs (ancestors p)"

section \<open>One area (lines 26 to 99)\<close>

text \<open>
  What the script prints. A line that contains formatted values is kept as those values;
  a fixed line is kept as its text.
\<close>

datatype line =
    Text string
  | Row_line string string json string
  | Error_processing string py_exception
  | Party_line json nat

text \<open>The Row of lines 88 to 94.\<close>

record row =
  area :: string
  mp_number :: string
  mp_party :: json
  matched :: bool
  status :: string

record loop_state =
  console :: "line list"
  all_matches :: "match_info list"
  all_rows :: "row list"

definition mp_dir :: string where "mp_dir = ''data/mp''"
definition pl_dir :: string where "pl_dir = ''data/pl''"

text \<open>
  A format specification such as \<^verbatim>\<open>{v:<10}\<close> is accepted by strings and numbers
  (booleans are numbers); \<^verbatim>\<open>None\<close>, lists and dicts raise TypeError.
\<close>

fun format_spec_ok :: "json \<Rightarrow> bool" where
  "format_spec_ok JNull = False"
| "format_spec_ok (JArr xs) = False"
| "format_spec_ok (JObj kvs) = False"
| "format_spec_ok _ = True"

text \<open>
  Line 48: the rest of the candidate code after the prefix, \<^verbatim>\<open>None\<close> when the prefix
  is not there; only a string has \<^verbatim>\<open>startswith\<close>.
\<close>

fun extract_mp_number :: "json \<Rightarrow> string \<Rightarrow> py_exception + string option" where
  "extract_mp_number (JStr c) prefix =
     Inr (if startswith c prefix then Some (drop (length prefix) c) else None)"
| "extract_mp_number _ prefix = Inl AttributeError"

text \<open>
  The body of the \<^verbatim>\<open>try\<close> (lines 34 to 96). The result is the state the body leaves and
  the exception it raised, if any; \<^verbatim>\<open>continue\<close> leaves the state as it was.
\<close>

definition try_area :: "runtime \<Rightarrow> fs \<Rightarrow> string \<Rightarrow> string \<Rightarrow> string \<Rightarrow> loop_state
    \<Rightarrow> loop_state \<times> py_exception option" where
  "try_area rt fs area_code mp_path pl_path st =
    (case read_json fs mp_path of
       Inl e \<Rightarrow> (st, Some e)
     | Inr mp_data \<Rightarrow>
    (case dict_get mp_data ''entries'' (JArr []) of
       Inl e \<Rightarrow> (st, Some e)
     | Inr mp_entries \<Rightarrow>
    if \<not> truthy mp_entries then (st, None) else
    (case subscript0 mp_entries of
       Inl e \<Rightarrow> (st, Some e)
     | Inr top_mp \<Rightarrow>
    (case dict_get top_mp ''candidateCode'' (JStr []) of
       Inl e \<Rightarrow> (st, Some e)
     | Inr winning_candidate \<Rightarrow>
    (case dict_get top_mp ''partyCode'' (JStr ''Unknown'') of
       Inl e \<Rightarrow> (st, Some e)
     | Inr mp_pty \<Rightarrow>
    (case extract_mp_number winning_candidate (''CANDIDATE-MP-'' @ area_code) of
       Inl e \<Rightarrow> (st, Some e)
     | Inr None \<Rightarrow> (st, None)
     | Inr (Some mp_num) \<Rightarrow>
    if mp_num = [] then (st, None) else
    (case read_json fs pl_path of
       Inl e \<Rightarrow> (st, Some e)
     | Inr pl_data \<Rightarrow>
    (case matcher rt area_code mp_num mp_pty pl_data (all_matches st) of
       (matches, am, Some e) \<Rightarrow> (st\<lparr>all_matches := am\<rparr>, Some e)
     | (matches, am, None) \<Rightarrow>
        (let stat = (if matches \<noteq> [] then ''MATCH: '' @ str_join '', '' matches
                     else ''No Match'');
             st1 = st\<lparr>all_matches := am,
                      all_rows := all_rows st @
                        [\<lparr>area = area_code, mp_number = mp_num, mp_party = mp_pty,
                          matched = (0 < length matches), status = stat\<rparr>]\<rparr>
         in if format_spec_ok mp_pty
            then (st1\<lparr>console := console st1 @ [Row_line area_code mp_num mp_pty stat]\<rparr>,
                  None)
            else (st1, Some TypeError))))))))))"

text \<open>
  One turn of the loop of line 25: the area is left out when the PL file is missing;
  otherwise the body runs and \<^verbatim>\<open>except Exception\<close> prints what it raised.
\<close>

definition process_area :: "runtime \<Rightarrow> fs \<Rightarrow> string \<Rightarrow> loop_state \<Rightarrow> loop_state" where
  "process_area rt fs filename st =
     (let area_code = remove_all ''.json'' filename;
          mp_path = path_join mp_dir filename;
          pl_path = path_join pl_dir filename
      in if \<not> path_exists fs pl_path then st
         else (case try_area rt fs area_code mp_path pl_path st of
                 (st', None) \<Rightarrow> st'
               | (st', Some e) \<Rightarrow> st'\<lparr>console := console st' @ [Error_processing area_code e]\<rparr>))"

text \<open>The loop over the sorted file names.\<close>

fun process_files :: "runtime \<Rightarrow> fs \<Rightarrow> string list \<Rightarrow> loop_state \<Rightarrow> loop_state" where
  "process_files rt fs [] st = st"
| "process_files rt fs (filename # rest) st =
     process_files rt fs rest (process_area rt fs filename st)"

section \<open>The summary (lines 101 to 122)\<close>

text \<open>
  \<^verbatim>\<open>party_counts\<close> is a dict: its items in insertion order. A key must be hashable, which
  lists and dicts are not; two keys are the same key when they are equal in Python, where
  \<^verbatim>\<open>True\<close>, \<^verbatim>\<open>1\<close> and \<^verbatim>\<open>1.0\<close> are equal. \<open>hash_key\<close> gives each hashable value the
  class of the values equal to it.
\<close>

datatype key = KNone | KNum rat | KStr string

fun hash_key :: "json \<Rightarrow> key option" where
  "hash_key JNull = Some KNone"
| "hash_key (JBool b) = Some (KNum (if b then 1 else 0))"
| "hash_key (JInt i) = Some (KNum (of_int i))"
| "hash_key (JFloat r) = Some (KNum r)"
| "hash_key (JStr s) = Some (KStr s)"
| "hash_key (JArr xs) = None"
| "hash_key (JObj kvs) = None"

text \<open>
  Line 113 for a hashable \<open>p\<close>: the count of an existing key goes up by one, the key and
  its place stay; a new key goes to the end with count 1.
\<close>

fun bump :: "json \<Rightarrow> (json \<times> nat) list \<Rightarrow> (json \<times> nat) list" where
  "bump p [] = [(p, 1)]"
| "bump p ((q, c) # rest) =
     (if hash_key q = hash_key p then (q, c + 1) # rest else (q, c) # bump p rest)"

fun count_parties :: "match_info list \<Rightarrow> (json \<times> nat) list \<Rightarrow> py_exception + (json \<times> nat) list" where
  "count_parties [] party_counts = Inr party_counts"
| "count_parties (m # ms) party_counts =
     (case hash_key (m_mp_party m) of
        None \<Rightarrow> Inl TypeError
      | Some k \<Rightarrow> count_parties ms (bump (m_mp_party m) party_counts))"

text \<open>
  \<^verbatim>\<open>sorted(party_counts.items(), key=lambda item: item[1], reverse=True)\<close>: Python's sort
  is stable, and with \<^verbatim>\<open>reverse=True\<close> items of equal key keep their order.
\<close>

definition sorted_parties :: "(json \<times> nat) list \<Rightarrow> (json \<times> nat) list" where
  "sorted_parties party_counts = sort_key (\<lambda>item. - int (snd item)) party_counts"

fun print_parties :: "(json \<times> nat) list \<Rightarrow> line list \<Rightarrow> line list \<times> py_exception option" where
  "print_parties [] con = (con, None)"
| "print_parties ((party, cnt) # rest) con =
     (if format_spec_ok party then print_parties rest (con @ [Party_line party cnt])
      else (con, Some TypeError))"

definition ljust :: "nat \<Rightarrow> string \<Rightarrow> string" where
  "ljust n s = s @ replicate (n - length s) CHR '' ''"

definition center :: "nat \<Rightarrow> string \<Rightarrow> string" where
  "center n s =
     (let total = n - length s; left = total div 2
      in replicate left CHR '' '' @ s @ replicate (total - left) CHR '' '')"

definition summary :: "match_info list \<Rightarrow> line list
    \<Rightarrow> line list \<times> (py_exception + (json \<times> nat) list)" where
  "summary ams con =
     (let con1 = con @ [Text (CHR 0x0A # replicate 40 CHR ''=''),
                        Text (center 40 ''SUMMARY BY PARTY (DESC)''),
                        Text (replicate 40 CHR ''='')]
      in if ams = []
         then (con1 @ [Text ''No matches discovered.'', Text (replicate 40 CHR ''='')], Inr [])
         else (case count_parties ams [] of
                 Inl e \<Rightarrow> (con1, Inl e)
               | Inr party_counts \<Rightarrow>
                  (case print_parties (sorted_parties party_counts)
                          (con1 @ [Text (ljust 20 ''Party Code'' @ '' | '' @ ljust 10 ''Match Count''),
                                   Text (replicate 40 CHR ''-'')]) of
                     (con2, Some e) \<Rightarrow> (con2, Inl e)
                   | (con2, None) \<Rightarrow>
                       (con2 @ [Text (replicate 40 CHR ''='')], Inr party_counts))))"

section \<open>The export (lines 128 to 181)\<close>

definition row_json :: "row \<Rightarrow> json" where
  "row_json r = JObj [(''area'', JStr (area r)), (''mp_number'', JStr (mp_number r)),
     (''mp_party'', mp_party r), (''matched'', JBool (matched r)), (''status'', JStr (status r))]"

definition match_json :: "match_info \<Rightarrow> json" where
  "match_json m = JObj [(''area'', JStr (m_area m)), (''mp_number'', JStr (m_mp_number m)),
     (''mp_party'', m_mp_party m), (''pl_rank'', pl_rank m), (''pl_party_code'', pl_party_code m)]"

text \<open>Line 142.\<close>

definition summary_by_party :: "(json \<times> nat) list \<Rightarrow> json list" where
  "summary_by_party party_counts =
     map (\<lambda>(p, c). JObj [(''party_code'', p), (''match_count'', JInt (int c))])
       (sorted_parties party_counts)"

text \<open>Lines 137 and 138.\<close>

definition total_areas :: "row list \<Rightarrow> int" where
  "total_areas rows = int (length rows)"

definition matched_areas :: "row list \<Rightarrow> int" where
  "matched_areas rows = sum_list (map (\<lambda>r. 1) (filter (\<lambda>r. matched r) rows))"

text \<open>Line 148: the integer 0 without a division when there is no row, a float otherwise.\<close>

definition match_rate :: "runtime \<Rightarrow> row list \<Rightarrow> json" where
  "match_rate rt rows =
     (if total_areas rows > 0
      then JFloat (round_ndigits rt
                     (float_mul rt (truediv rt (matched_areas rows) (total_areas rows)) 100) 2)
      else JInt 0)"

text \<open>The snapshot of lines 170 to 176.\<close>

definition snapshot :: "runtime \<Rightarrow> row list \<Rightarrow> (json \<times> nat) list \<Rightarrow> json" where
  "snapshot rt rows party_counts =
     JObj [(''timestamp'', JStr (utc_now_iso rt)),
           (''total_areas'', JInt (total_areas rows)),
           (''matched_areas'', JInt (matched_areas rows)),
           (''match_rate'', match_rate rt rows),
           (''summary_by_party'', JArr (summary_by_party party_counts))]"

text \<open>\<^verbatim>\<open>history.append(x)\<close>: only a list has \<^verbatim>\<open>append\<close>.\<close>

fun list_append :: "json \<Rightarrow> json \<Rightarrow> py_exception + json" where
  "list_append (JArr xs) x = Inr (JArr (xs @ [x]))"
| "list_append _ x = Inl AttributeError"

text \<open>Lines 161 to 168: the history the file holds, the empty list when it cannot be read.\<close>

definition load_history :: "fs \<Rightarrow> string \<Rightarrow> json" where
  "load_history fs history_path =
     (if path_exists fs history_path
      then (case read_json fs history_path of Inl e \<Rightarrow> JArr [] | Inr h \<Rightarrow> h)
      else JArr [])"

text \<open>
  The result is what was printed, the file system and the exception that ended the
  function, if any.
\<close>

definition export_results :: "runtime \<Rightarrow> fs \<Rightarrow> row list \<Rightarrow> match_info list \<Rightarrow> (json \<times> nat) list
    \<Rightarrow> line list \<Rightarrow> line list \<times> fs \<times> py_exception option" where
  "export_results rt fs rows ams party_counts con =
     (let output_dir = ''docs/data''
      in case makedirs fs output_dir of
           Inl e \<Rightarrow> (con, fs, Some e)
         | Inr fs1 \<Rightarrow>
            (let results = JObj [(''timestamp'', JStr (utc_now_iso rt)),
                                 (''total_areas'', JInt (total_areas rows)),
                                 (''matched_areas'', JInt (matched_areas rows)),
                                 (''match_rate'', match_rate rt rows),
                                 (''summary_by_party'', JArr (summary_by_party party_counts)),
                                 (''matches'', JArr (map match_json ams)),
                                 (''details'', JArr (map row_json rows))];
                 results_path = path_join output_dir ''results.json''
             in case write_json fs1 results_path results of
                  Inl e \<Rightarrow> (con, fs1, Some e)
                | Inr fs2 \<Rightarrow>
                   (let con1 = con @ [Text (CHR 0x0A # ''Results exported to '' @ results_path)];
                        history_path = path_join output_dir ''history.json''
                    in case list_append (load_history fs2 history_path)
                              (snapshot rt rows party_counts) of
                         Inl e \<Rightarrow> (con1, fs2, Some e)
                       | Inr history \<Rightarrow>
                          (case write_json fs2 history_path history of
                             Inl e \<Rightarrow> (con1, fs2, Some e)
                           | Inr fs3 \<Rightarrow>
                              (con1 @ [Text (''History updated at '' @ history_path)], fs3,
                               None)))))"

section \<open>The whole run (lines 5 to 126)\<close>

record run =
  printed :: "line list"
  files :: fs
  uncaught :: "py_exception option"

definition compare_mp_and_pl :: "runtime \<Rightarrow> bool \<Rightarrow> fs \<Rightarrow> run" where
  "compare_mp_and_pl rt export_json fs =
     (if \<not> path_exists fs mp_dir \<or> \<not> path_exists fs pl_dir
      then \<lparr>printed = [Text ''Error: data/mp or data/pl directory not found.''],
            files = fs, uncaught = None\<rparr>
      else (case listdir fs mp_dir of
              Inl e \<Rightarrow> \<lparr>printed = [], files = fs, uncaught = Some e\<rparr>
            | Inr names \<Rightarrow>
               (let mp_files = sort (filter (\<lambda>f. endswith f ''.json'') names);
                    st0 = \<lparr>console =
                             [Text (ljust 6 ''Area'' @ '' | '' @ ljust 6 ''MP Num'' @ '' | '' @
                                    ljust 10 ''MP Party'' @ '' | '' @ ljust 30 ''Status''),
                              Text (replicate 50 CHR ''-'')],
                           all_matches = [], all_rows = []\<rparr>;
                    st = process_files rt fs mp_files st0
                in case summary (all_matches st) (console st) of
                     (con, Inl e) \<Rightarrow> \<lparr>printed = con, files = fs, uncaught = Some e\<rparr>
                   | (con, Inr party_counts) \<Rightarrow>
                      if export_json
                      then (case export_results rt fs (all_rows st) (all_matches st)
                                   party_counts con of
                              (con', fs', exc) \<Rightarrow>
                                \<lparr>printed = con', files = fs', uncaught = exc\<rparr>)
                      else \<lparr>printed = con, files = fs, uncaught = None\<rparr>)))"

section \<open>Notions used in the statements\<close>

text \<open>
  A party code whose last two characters are \<^verbatim>\<open>06\<close> or \<^verbatim>\<open>09\<close>, and a PL entry with such a
  party code.
\<close>

definition ends_06_09 :: "json \<Rightarrow> bool" where
  "ends_06_09 code =
     (slice_last 2 code = Inr (JStr ''06'') \<or> slice_last 2 code = Inr (JStr ''09''))"

definition entry_excluded :: "json \<Rightarrow> bool" where
  "entry_excluded pl_entry =
     (case dict_get pl_entry ''partyCode'' (JStr []) of
        Inl e \<Rightarrow> False
      | Inr code \<Rightarrow> ends_06_09 code)"

text \<open>The entry of the area's match list that line 79 makes for a recorded match.\<close>

definition match_text :: "runtime \<Rightarrow> match_info \<Rightarrow> string" where
  "match_text rt m = ''Rank '' @ fmt rt (pl_rank m) @ '' (Party List '' @ m_mp_number m @ '')''"

text \<open>What holds of every match the loop records for area \<open>a\<close>, number \<open>n\<close>, party \<open>p\<close>.\<close>

definition recorded_ok :: "string \<Rightarrow> string \<Rightarrow> json \<Rightarrow> match_info \<Rightarrow> bool" where
  "recorded_ok a n p m =
     (slice_last 2 (pl_party_code m) = Inr (JStr n) \<and> n \<noteq> ''06'' \<and> n \<noteq> ''09''
      \<and> m_area m = a \<and> m_mp_number m = n \<and> m_mp_party m = p)"

section \<open>Sample inputs\<close>

text \<open>
  A runtime for the concrete runs below: \<^verbatim>\<open>str()\<close> as Python has it on \<^verbatim>\<open>None\<close>,
  booleans and integers (other values do not occur in the samples), and Python's float
  operations.
\<close>

function digits :: "nat \<Rightarrow> string" where
  "digits n =
     (if n < 10 then [char_of (48 + n)] else digits (n div 10) @ [char_of (48 + n mod 10)])"
  by pat_completeness auto
termination
  by (relation "measure id") auto

definition rt_sample :: runtime where
  "rt_sample =
     \<lparr>utc_now_iso = ''2026-02-08T12:00:00+00:00'',
      py_str = (\<lambda>v. case v of
                  JNull \<Rightarrow> ''None''
                | JBool b \<Rightarrow> (if b then ''True'' else ''False'')
                | JInt i \<Rightarrow> (if i < 0 then CHR ''-'' # digits (nat (- i)) else digits (nat i))
                | _ \<Rightarrow> ''?''),
      truediv = py_truediv,
      float_mul = py_float_mul,
      round_ndigits = py_round\<rparr>"

definition pl_entry_of :: "string \<Rightarrow> int \<Rightarrow> json" where
  "pl_entry_of code r = JObj [(''partyCode'', JStr code), (''rank'', JInt r)]"

definition pl_doc :: "json list \<Rightarrow> json" where
  "pl_doc es = JObj [(''entries'', JArr es)]"

section \<open>Notions used in the statements about areas\<close>

definition area_of :: "string \<Rightarrow> string" where
  "area_of filename = remove_all ''.json'' filename"

definition expected_prefix :: "string \<Rightarrow> string" where
  "expected_prefix filename = ''CANDIDATE-MP-'' @ area_of filename"

text \<open>
  The first entry of the MP file of an area, when that file holds an object whose
  \<^verbatim>\<open>entries\<close> is a non-empty list; the candidate code of an entry, when the entry is an
  object and the code a string.
\<close>

definition mp_first_entry :: "fs \<Rightarrow> string \<Rightarrow> json option" where
  "mp_first_entry fs filename =
     (case read_json fs (path_join mp_dir filename) of
        Inr (JObj kvs) \<Rightarrow>
          (case map_of kvs ''entries'' of Some (JArr (top_mp # rest)) \<Rightarrow> Some top_mp | _ \<Rightarrow> None)
      | _ \<Rightarrow> None)"

definition winning_code :: "json \<Rightarrow> string option" where
  "winning_code top_mp =
     (case dict_get top_mp ''candidateCode'' (JStr []) of Inr (JStr c) \<Rightarrow> Some c | _ \<Rightarrow> None)"

text \<open>
  What follows the expected prefix in the winning candidate code, when the MP file has a
  first entry whose candidate code starts with the prefix.
\<close>

definition winner_number :: "fs \<Rightarrow> string \<Rightarrow> string option" where
  "winner_number fs filename =
     (case mp_first_entry fs filename of
        None \<Rightarrow> None
      | Some top_mp \<Rightarrow>
         (case winning_code top_mp of
            None \<Rightarrow> None
          | Some c \<Rightarrow>
              if startswith c (expected_prefix filename)
              then Some (drop (length (expected_prefix filename)) c) else None))"

definition winner_party :: "fs \<Rightarrow> string \<Rightarrow> json" where
  "winner_party fs filename =
     (case mp_first_entry fs filename of
        Some (JObj kvs) \<Rightarrow> (case map_of kvs ''partyCode'' of Some v \<Rightarrow> v | None \<Rightarrow> JStr ''Unknown'')
      | _ \<Rightarrow> JNull)"

text \<open>
  The preconditions as the specification words them: the file is in both directories, the
  MP object has a non-empty list of entries, the winning candidate code starts with the
  expected prefix.
\<close>

definition claimed_eligible :: "fs \<Rightarrow> string \<Rightarrow> bool" where
  "claimed_eligible fs filename =
     (path_exists fs (path_join mp_dir filename) \<and> path_exists fs (path_join pl_dir filename)
      \<and> winner_number fs filename \<noteq> None)"

text \<open>
  A PL document the matcher goes through without an exception: an object whose
  \<^verbatim>\<open>entries\<close> (the empty list when missing) can be sliced and whose first 7 items are
  objects with a party code (the empty string when missing) that can be sliced.
\<close>

definition entry_ok :: "json \<Rightarrow> bool" where
  "entry_ok pl_entry =
     (case dict_get pl_entry ''partyCode'' (JStr []) of
        Inl e \<Rightarrow> False
      | Inr code \<Rightarrow> (case slice_last 2 code of Inl e \<Rightarrow> False | Inr l \<Rightarrow> True))"

definition pl_well_formed :: "json \<Rightarrow> bool" where
  "pl_well_formed pl_data =
     (case dict_get pl_data ''entries'' (JArr []) of
        Inl e \<Rightarrow> False
      | Inr ents \<Rightarrow>
         (case slice_first 7 ents of
            Inl e \<Rightarrow> False
          | Inr pl_entries \<Rightarrow> list_all entry_ok (iter_items pl_entries)))"

definition pl_scans :: "fs \<Rightarrow> string \<Rightarrow> bool" where
  "pl_scans fs filename =
     (case read_json fs (path_join pl_dir filename) of
        Inl e \<Rightarrow> False
      | Inr pl_data \<Rightarrow> pl_well_formed pl_data)"

text \<open>The preconditions under which the code does make a Row.\<close>

definition eligible :: "fs \<Rightarrow> string \<Rightarrow> bool" where
  "eligible fs filename =
     (path_exists fs (path_join pl_dir filename)
      \<and> (case winner_number fs filename of
            None \<Rightarrow> False
          | Some n \<Rightarrow> n \<noteq> [] \<and> pl_scans fs filename))"

definition st_empty :: loop_state where
  "st_empty = \<lparr>console = [], all_matches = [], all_rows = []\<rparr>"

text \<open>What one file adds to the rows, to the matches and to the console.\<close>

definition area_rows :: "runtime \<Rightarrow> fs \<Rightarrow> string \<Rightarrow> row list" where
  "area_rows rt fs filename = all_rows (process_area rt fs filename st_empty)"

definition area_matches :: "runtime \<Rightarrow> fs \<Rightarrow> string \<Rightarrow> match_info list" where
  "area_matches rt fs filename = all_matches (process_area rt fs filename st_empty)"

definition area_lines :: "runtime \<Rightarrow> fs \<Rightarrow> string \<Rightarrow> line list" where
  "area_lines rt fs filename = console (process_area rt fs filename st_empty)"

text \<open>The exception the body of the \<^verbatim>\<open>try\<close> raises for a file, if any.\<close>

definition area_exception :: "runtime \<Rightarrow> fs \<Rightarrow> string \<Rightarrow> py_exception option" where
  "area_exception rt fs filename =
     snd (try_area rt fs (remove_all ''.json'' filename) (path_join mp_dir filename)
            (path_join pl_dir filename) st_empty)"

section \<open>Notions used in the statements about the summary\<close>

text \<open>
  The key of the MP party of a match, the number of matches of a key in a list of
  matches, the keys of a list in the order in which they are first met, and the count a
  dict of counts gives for a key.
\<close>

definition party_key :: "match_info \<Rightarrow> key option" where
  "party_key m = hash_key (m_mp_party m)"

definition occurrences :: "key option \<Rightarrow> match_info list \<Rightarrow> nat" where
  "occurrences k ms = length (filter (\<lambda>m. party_key m = k) ms)"

fun first_seen :: "'a list \<Rightarrow> 'a list \<Rightarrow> 'a list" where
  "first_seen seen [] = seen"
| "first_seen seen (x # xs) = first_seen (if x \<in> set seen then seen else seen @ [x]) xs"

definition item_key :: "json \<times> nat \<Rightarrow> key option" where
  "item_key item = hash_key (fst item)"

definition count_of :: "(json \<times> nat) list \<Rightarrow> key option \<Rightarrow> nat" where
  "count_of party_counts k =
     (case find (\<lambda>item. item_key item = k) party_counts of None \<Rightarrow> 0 | Some item \<Rightarrow> snd item)"

section \<open>A sample data set\<close>

definition mp_doc :: "string \<Rightarrow> json \<Rightarrow> json" where
  "mp_doc code party =
     JObj [(''entries'', JArr [JObj [(''candidateCode'', JStr code), (''partyCode'', party)]])]"

text \<open>
  Areas 100 and 101 are regular (101 wins with number 09, which is excluded); the MP file
  of 102 is corrupt; the winning code of 103 is the bare prefix; the PL file of 104 is
  corrupt; 105 has no PL file; 106 has two PL parties that end in its number.
\<close>

definition fs_sample :: fs where
  "fs_sample =
     [(''data'', Dir), (''data/mp'', Dir), (''data/pl'', Dir),
      (''data/mp/101.json'', File (Document (mp_doc ''CANDIDATE-MP-10109'' (JStr ''PARTY-0002'')))),
      (''data/mp/100.json'', File (Document (mp_doc ''CANDIDATE-MP-10005'' (JStr ''PARTY-0001'')))),
      (''data/pl/100.json'', File (Document (pl_doc
          [pl_entry_of ''PARTY-0001'' 1, pl_entry_of ''PARTY-0007'' 2, pl_entry_of ''PARTY-0005'' 3]))),
      (''data/pl/101.json'', File (Document (pl_doc [pl_entry_of ''PARTY-0009'' 1]))),
      (''data/mp/102.json'', File Corrupt),
      (''data/pl/102.json'', File (Document (pl_doc []))),
      (''data/mp/103.json'', File (Document (mp_doc ''CANDIDATE-MP-103'' (JStr ''PARTY-0001'')))),
      (''data/pl/103.json'', File (Document (pl_doc [pl_entry_of ''PARTY-0001'' 1]))),
      (''data/mp/104.json'', File (Document (mp_doc ''CANDIDATE-MP-10412'' (JStr ''PARTY-0003'')))),
      (''data/pl/104.json'', File Corrupt),
      (''data/mp/105.json'', File (Document (mp_doc ''CANDIDATE-MP-10503'' (JStr ''PARTY-0003'')))),
      (''data/mp/106.json'', File (Document (mp_doc ''CANDIDATE-MP-10604'' (JStr ''PARTY-0002'')))),
      (''data/pl/106.json'', File (Document (pl_doc
          [pl_entry_of ''PARTY-0004'' 1, pl_entry_of ''LIST-04'' 2]))),
      (''data/mp/readme.txt'', File Corrupt)]"

definition match_of :: "string \<Rightarrow> string \<Rightarrow> string \<Rightarrow> int \<Rightarrow> string \<Rightarrow> match_info" where
  "match_of a n p r c =
     \<lparr>m_area = a, m_mp_number = n, m_mp_party = JStr p, pl_rank = JInt r, pl_party_code = JStr c\<rparr>"

text \<open>Four matches in three areas: area 106 has two, and the parties B and C tie.\<close>

definition ms_sample :: "match_info list" where
  "ms_sample =
     [match_of ''100'' ''05'' ''B'' 3 ''PARTY-0005'',
      match_of ''106'' ''04'' ''A'' 1 ''PARTY-0004'',
      match_of ''106'' ''04'' ''A'' 2 ''LIST-04'',
      match_of ''107'' ''11'' ''C'' 5 ''PARTY-0011'']"

section \<open>Notions used in the statements about the export\<close>

definition results_path :: string where
  "results_path = path_join ''docs/data'' ''results.json''"

definition history_path :: string where
  "history_path = path_join ''docs/data'' ''history.json''"

text \<open>
  Nothing stands in the way of the output: neither \<^verbatim>\<open>docs\<close> nor \<^verbatim>\<open>docs/data\<close> is a file,
  and the path of the results file is not a directory.
\<close>

definition output_writable :: "fs \<Rightarrow> bool" where
  "output_writable fs =
     ((case map_of fs ''docs'' of Some (File c) \<Rightarrow> False | _ \<Rightarrow> True)
      \<and> (case map_of fs ''docs/data'' of Some (File c) \<Rightarrow> False | _ \<Rightarrow> True)
      \<and> map_of fs results_path \<noteq> Some Dir)"

text \<open>The history the file holds before the export, when it holds a JSON array.\<close>

definition old_history :: "fs \<Rightarrow> json list" where
  "old_history fs =
     (case map_of fs history_path of Some (File (Document (JArr xs))) \<Rightarrow> xs | _ \<Rightarrow> [])"

text \<open>The history file is missing, or \<^verbatim>\<open>json.load\<close> rejects it, or it holds a JSON array.\<close>

definition history_absent_corrupt_or_array :: "fs \<Rightarrow> bool" where
  "history_absent_corrupt_or_array fs =
     (case map_of fs history_path of
        None \<Rightarrow> True
      | Some (File Corrupt) \<Rightarrow> True
      | Some (File (Document (JArr xs))) \<Rightarrow> True
      | _ \<Rightarrow> False)"

definition row_of :: "string \<Rightarrow> bool \<Rightarrow> row" where
  "row_of a m =
     \<lparr>area = a, mp_number = ''05'', mp_party = JStr ''PARTY-0001'', matched = m,
      status = (if m then ''MATCH: Rank 1 (Party List 05)'' else ''No Match'')\<rparr>"

text \<open>The sample data with an output directory whose history file is corrupt.\<close>

definition fs_history_corrupt :: fs where
  "fs_history_corrupt =
     fs_sample @ [(''docs'', Dir), (''docs/data'', Dir),
                  (''docs/data/history.json'', File Corrupt)]"

section \<open>Notions used in the statements about the match rate\<close>

text \<open>
  The percentage of matched Rows in exact arithmetic, and that percentage rounded to 2
  decimal places in exact arithmetic, a tie going to the even digit.
\<close>

definition exact_percent :: "row list \<Rightarrow> rat" where
  "exact_percent rows = 100 * of_int (matched_areas rows) / of_int (total_areas rows)"

definition exact_rate :: "row list \<Rightarrow> rat" where
  "exact_rate rows = of_int (round_half_even (exact_percent rows * 100)) / 100"

text \<open>\<open>t\<close> Rows of which the first \<open>m\<close> are matched.\<close>

definition sample_rows :: "nat \<Rightarrow> nat \<Rightarrow> row list" where
  "sample_rows m t = replicate m (row_of ''100'' True) @ replicate (t - m) (row_of ''101'' False)"

section \<open>Properties of the matcher\<close>

text \<open>
  Whatever the loop is given, it only appends: to the area's match list the text of each
  new match, to \<open>all_matches\<close> the match itself, at most one per entry.
\<close>

lemma scan_pl_appends:
  "scan_pl rt a n p es ms am = (ms', am', x) \<Longrightarrow>
     \<exists>new. ms' = ms @ map (match_text rt) new \<and> am' = am @ new
        \<and> length new \<le> length es \<and> (\<forall>m \<in> set new. recorded_ok a n p m)"
proof (induction es arbitrary: ms am)
  case Nil
  then show ?case by simp
next
  case (Cons e es)
  show ?case
  proof (cases "dict_get e ''partyCode'' (JStr [])")
    case (Inl ex)
    with Cons.prems show ?thesis by simp
  next
    case code: (Inr pl_code)
    show ?thesis
    proof (cases "slice_last 2 pl_code")
      case (Inl ex)
      with code Cons.prems show ?thesis by simp
    next
      case l2: (Inr last_2)
      show ?thesis
      proof (cases "last_2 = JStr ''06'' \<or> last_2 = JStr ''09''")
        case True
        with code l2 Cons.prems have "scan_pl rt a n p es ms am = (ms', am', x)" by auto
        from Cons.IH[OF this] show ?thesis by auto
      next
        case nex: False
        show ?thesis
        proof (cases "last_2 = JStr n")
          case False
          with nex code l2 Cons.prems have "scan_pl rt a n p es ms am = (ms', am', x)" by auto
          from Cons.IH[OF this] show ?thesis by auto
        next
          case eq: True
          show ?thesis
          proof (cases "dict_get e ''rank'' JNull")
            case (Inl ex)
            with eq nex code l2 Cons.prems show ?thesis by simp
          next
            case (Inr rank)
            let ?s = "''Rank '' @ fmt rt rank @ '' (Party List '' @ fmt rt last_2 @ '')''"
            let ?m = "\<lparr>m_area = a, m_mp_number = n, m_mp_party = p, pl_rank = rank, pl_party_code = pl_code\<rparr>"
            from Inr eq nex code l2 Cons.prems
            have "scan_pl rt a n p es (ms @ [?s]) (am @ [?m]) = (ms', am', x)" by simp
            from Cons.IH[OF this] obtain new where
              h: "ms' = (ms @ [?s]) @ map (match_text rt) new" "am' = (am @ [?m]) @ new"
                "length new \<le> length es" "\<forall>m \<in> set new. recorded_ok a n p m" by blast
            have ok: "recorded_ok a n p ?m" using eq nex l2 by (simp add: recorded_ok_def)
            have tx: "?s = match_text rt ?m" using eq by (simp add: match_text_def fmt_def)
            from h ok tx show ?thesis
              by (intro exI[of _ "?m # new"]) simp
          qed
        qed
      qed
    qed
  qed
qed

lemma matcher_appends:
  assumes "matcher rt a n p pl_data am = (ms, am', x)"
  shows "\<exists>new. ms = map (match_text rt) new \<and> am' = am @ new \<and> length new \<le> 7
     \<and> (\<forall>m \<in> set new. recorded_ok a n p m)"
proof (cases "dict_get pl_data ''entries'' (JArr [])")
  case (Inl e)
  with assms show ?thesis by (simp add: matcher_def)
next
  case ents: (Inr ents)
  show ?thesis
  proof (cases "slice_first 7 ents")
    case (Inl e)
    with ents assms show ?thesis by (simp add: matcher_def)
  next
    case (Inr pl_entries)
    with ents assms have s: "scan_pl rt a n p (iter_items pl_entries) [] am = (ms, am', x)"
      by (simp add: matcher_def)
    have "length (iter_items pl_entries) \<le> 7" using Inr by (cases ents) auto
    with scan_pl_appends[OF s] show ?thesis by fastforce
  qed
qed

lemma scan_pl_skips_excluded:
  "scan_pl rt a n p (filter (\<lambda>e. \<not> entry_excluded e) es) ms am = scan_pl rt a n p es ms am"
  by (induction es arbitrary: ms am)
     (auto simp: entry_excluded_def ends_06_09_def split: sum.splits)

lemma matcher_entries:
  "dict_get pl_data ''entries'' (JArr []) = Inr (JArr es) \<Longrightarrow>
     matcher rt a n p pl_data am = scan_pl rt a n p (take 7 es) [] am"
  by (simp add: matcher_def)

lemma dict_get_pl_doc: "dict_get (pl_doc es) ''entries'' d = Inr (JArr es)"
  by (simp add: pl_doc_def)

lemma slice_last_2_eq:
  assumes "slice_last 2 code = Inr (JStr n)" and "length n \<noteq> 2"
  shows "code = JStr n \<and> length n < 2"
proof (cases code)
  case (JStr s)
  with assms(1) have n: "n = last_n 2 s" by simp
  then have "length n = min 2 (length s)" by (simp add: last_n_def min_def)
  with assms(2) have "length s < 2" by (simp add: min_def split: if_splits)
  with n JStr show ?thesis by (simp add: last_n_def)
qed (use assms in auto)

text \<open>
  Claim C2. A PL entry among the first 7 whose party code ends in \<^verbatim>\<open>06\<close> or \<^verbatim>\<open>09\<close> is
  never recorded: every match the matcher appends to \<open>all_matches\<close> has a party code that
  does not end so, the area's match list holds the texts of exactly these matches, an MP
  number \<^verbatim>\<open>06\<close> or \<^verbatim>\<open>09\<close> finds no match at all, and taking the excluded entries out of
  the first 7 changes nothing in the result.
\<close>

theorem excluded_codes_never_match:
  assumes "matcher rt a n p pl_data am = (ms, am', x)"
  shows "(\<exists>new. am' = am @ new \<and> ms = map (match_text rt) new
            \<and> (\<forall>m \<in> set new. \<not> ends_06_09 (pl_party_code m)))
       \<and> ((n = ''06'' \<or> n = ''09'') \<longrightarrow> am' = am \<and> ms = [])
       \<and> (\<forall>es. dict_get pl_data ''entries'' (JArr []) = Inr (JArr es) \<longrightarrow>
             matcher rt a n p (pl_doc (filter (\<lambda>e. \<not> entry_excluded e) (take 7 es))) am
               = (ms, am', x))"
proof -
  from matcher_appends[OF assms] obtain new where
    h: "ms = map (match_text rt) new" "am' = am @ new" "\<forall>m \<in> set new. recorded_ok a n p m"
    by blast
  have a1: "\<forall>m \<in> set new. \<not> ends_06_09 (pl_party_code m)"
    using h(3) by (auto simp: recorded_ok_def ends_06_09_def)
  have a2: "(n = ''06'' \<or> n = ''09'') \<longrightarrow> new = []"
  proof
    assume n: "n = ''06'' \<or> n = ''09''"
    show "new = []"
    proof (cases new)
      case (Cons m rest)
      with h(3) have "recorded_ok a n p m" by simp
      with n show ?thesis by (auto simp: recorded_ok_def)
    qed simp
  qed
  have a3: "matcher rt a n p (pl_doc (filter (\<lambda>e. \<not> entry_excluded e) (take 7 es))) am = (ms, am', x)"
    if e: "dict_get pl_data ''entries'' (JArr []) = Inr (JArr es)" for es
  proof -
    have "length (filter (\<lambda>e. \<not> entry_excluded e) (take 7 es)) \<le> 7"
      by (rule order_trans[OF length_filter_le]) simp
    then have "matcher rt a n p (pl_doc (filter (\<lambda>e. \<not> entry_excluded e) (take 7 es))) am
        = scan_pl rt a n p (filter (\<lambda>e. \<not> entry_excluded e) (take 7 es)) [] am"
      by (simp add: matcher_entries[OF dict_get_pl_doc])
    also have "\<dots> = scan_pl rt a n p (take 7 es) [] am" by (rule scan_pl_skips_excluded)
    also have "\<dots> = (ms, am', x)" using matcher_entries[OF e] assms by simp
    finally show ?thesis .
  qed
  from h a1 a2 a3 show ?thesis by auto
qed

theorem excluded_codes_never_match_witness:
  "matcher rt_sample ''100'' ''06'' (JStr ''PARTY-0001'')
      (pl_doc [pl_entry_of ''PARTY-0006'' 1, pl_entry_of ''PARTY-0005'' 2]) [] = ([], [], None)
   \<and> matcher rt_sample ''100'' ''06'' (JStr ''PARTY-0001'')
        (pl_doc (filter (\<lambda>e. \<not> entry_excluded e) (take 7 [pl_entry_of ''PARTY-0006'' 1, pl_entry_of ''PARTY-0005'' 2]))) []
       = ([], [], None)"
proof -
  have h: "matcher rt_sample ''100'' ''06'' (JStr ''PARTY-0001'')
      (pl_doc [pl_entry_of ''PARTY-0006'' 1, pl_entry_of ''PARTY-0005'' 2]) [] = ([], [], None)"
    by code_simp
  have e: "dict_get (pl_doc [pl_entry_of ''PARTY-0006'' 1, pl_entry_of ''PARTY-0005'' 2]) ''entries'' (JArr [])
     = Inr (JArr [pl_entry_of ''PARTY-0006'' 1, pl_entry_of ''PARTY-0005'' 2])"
    by (simp add: pl_doc_def)
  from excluded_codes_never_match[OF h] e h show ?thesis by blast
qed

text \<open>
  Claim C3, as amended. An MP number of more than 2 characters finds no match. An MP
  number of fewer than 2 characters can match, but only a PL entry whose party code is
  the MP number itself. (The claim as written, no match whenever the length is not 2,
  fails for a single character: see the counterexample.)
\<close>

theorem mp_number_length_not_two:
  assumes "matcher rt a n p pl_data am = (ms, am', x)" and "length n \<noteq> 2"
  shows "(2 < length n \<longrightarrow> am' = am \<and> ms = [])
       \<and> (\<exists>new. am' = am @ new \<and> ms = map (match_text rt) new
             \<and> (\<forall>m \<in> set new. pl_party_code m = JStr n))"
proof -
  from matcher_appends[OF assms(1)] obtain new where
    h: "ms = map (match_text rt) new" "am' = am @ new" "\<forall>m \<in> set new. recorded_ok a n p m"
    by blast
  have a1: "\<forall>m \<in> set new. pl_party_code m = JStr n \<and> length n < 2"
    using h(3) slice_last_2_eq[OF _ assms(2)] by (auto simp: recorded_ok_def)
  have a2: "2 < length n \<longrightarrow> new = []"
  proof
    assume "2 < length n"
    show "new = []"
    proof (cases new)
      case (Cons m rest)
      with a1 have "length n < 2" by simp
      with \<open>2 < length n\<close> show ?thesis by simp
    qed simp
  qed
  from h a1 a2 show ?thesis by auto
qed

theorem mp_number_length_not_two_witness:
  "length ''105'' \<noteq> 2 \<and>
   matcher rt_sample ''100'' ''105'' (JStr ''PARTY-0001'')
      (pl_doc [pl_entry_of ''PARTY-0105'' 1, pl_entry_of ''105'' 2]) [] = ([], [], None)
   \<and> (\<exists>new. [] = [] @ new \<and> [] = map (match_text rt_sample) new
          \<and> (\<forall>m \<in> set new. pl_party_code m = JStr ''105''))"
proof -
  have h: "matcher rt_sample ''100'' ''105'' (JStr ''PARTY-0001'')
      (pl_doc [pl_entry_of ''PARTY-0105'' 1, pl_entry_of ''105'' 2]) [] = ([], [], None)"
    by code_simp
  have l: "length ''105'' \<noteq> 2" by simp
  from mp_number_length_not_two[OF h l] h l show ?thesis by blast
qed

text \<open>
  The claim as written fails: the MP number \<^verbatim>\<open>5\<close> has length 1 and matches the party
  code \<^verbatim>\<open>5\<close>.
\<close>

theorem short_mp_number_counterexample:
  "length ''5'' \<noteq> 2 \<and>
   matcher rt_sample ''100'' ''5'' (JStr ''PARTY-0001'') (pl_doc [pl_entry_of ''5'' 1]) []
    = ([''Rank 1 (Party List 5)''],
       [\<lparr>m_area = ''100'', m_mp_number = ''5'', m_mp_party = JStr ''PARTY-0001'',
          pl_rank = JInt 1, pl_party_code = JStr ''5''\<rparr>], None)"
  by code_simp

text \<open>
  Claim C5. Only the first 7 entries of the PL document count: two documents whose
  entries agree on the first 7 give the same result, and no area records more than 7
  matches.
\<close>

theorem only_first_seven_entries:
  assumes "dict_get pl_data ''entries'' (JArr []) = Inr (JArr es)"
      and "dict_get pl_data' ''entries'' (JArr []) = Inr (JArr es')"
      and "take 7 es = take 7 es'"
  shows "matcher rt a n p pl_data am = matcher rt a n p pl_data' am
       \<and> length (fst (matcher rt a n p pl_data am)) \<le> 7
       \<and> length (fst (snd (matcher rt a n p pl_data am))) \<le> length am + 7"
proof -
  have eq: "matcher rt a n p pl_data am = matcher rt a n p pl_data' am"
    using assms by (simp add: matcher_entries)
  obtain ms am' x where r: "matcher rt a n p pl_data am = (ms, am', x)"
    by (cases "matcher rt a n p pl_data am") auto
  from matcher_appends[OF r] r eq show ?thesis by auto
qed

theorem only_first_seven_entries_witness:
  "matcher rt_sample ''100'' ''05'' (JStr ''PARTY-0001'')
      (pl_doc (map (\<lambda>i. pl_entry_of ''PARTY-0001'' i) [1, 2, 3, 4, 5, 6, 7] @ [pl_entry_of ''PARTY-0005'' 8])) []
   = matcher rt_sample ''100'' ''05'' (JStr ''PARTY-0001'')
      (pl_doc (map (\<lambda>i. pl_entry_of ''PARTY-0001'' i) [1, 2, 3, 4, 5, 6, 7])) []
   \<and> matcher rt_sample ''100'' ''05'' (JStr ''PARTY-0001'')
      (pl_doc (map (\<lambda>i. pl_entry_of ''PARTY-0001'' i) [1, 2, 3, 4, 5, 6, 7])) [] = ([], [], None)"
proof -
  let ?xs = "map (\<lambda>i. pl_entry_of ''PARTY-0001'' i) [1, 2, 3, 4, 5, 6, 7]"
  have t: "take 7 (?xs @ [pl_entry_of ''PARTY-0005'' 8]) = take 7 ?xs" by simp
  have v: "matcher rt_sample ''100'' ''05'' (JStr ''PARTY-0001'') (pl_doc ?xs) [] = ([], [], None)"
    by code_simp
  from only_first_seven_entries[OF dict_get_pl_doc dict_get_pl_doc t, of rt_sample "''100''" "''05''" "JStr ''PARTY-0001''" "[]"] v
  show ?thesis by simp
qed

text \<open>
  Claim C10. The last-two slice of a string of fewer than 2 characters is the string
  itself, so a PL party code of a single character (\<^verbatim>\<open>6\<close> and \<^verbatim>\<open>9\<close> among them) is not
  excluded and is recorded as a match when the MP number is that character.
\<close>

theorem single_character_code_not_excluded:
  "slice_last 2 (JStr []) = Inr (JStr []) \<and> slice_last 2 (JStr [c]) = Inr (JStr [c])
   \<and> \<not> entry_excluded (JObj [(''partyCode'', JStr [c]), (''rank'', r)])
   \<and> matcher rt a [c] p (pl_doc [JObj [(''partyCode'', JStr [c]), (''rank'', r)]]) am
      = ([''Rank '' @ fmt rt r @ '' (Party List '' @ [c] @ '')''],
         am @ [\<lparr>m_area = a, m_mp_number = [c], m_mp_party = p, pl_rank = r,
                 pl_party_code = JStr [c]\<rparr>], None)"
  by (simp add: matcher_def pl_doc_def last_n_def entry_excluded_def ends_06_09_def fmt_def)

theorem single_character_code_not_excluded_witness:
  "matcher rt_sample ''100'' ''6'' (JStr ''PARTY-0001'') (pl_doc [JObj [(''partyCode'', JStr ''6''), (''rank'', JInt 1)]]) []
     = ([''Rank 1 (Party List 6)''],
         [\<lparr>m_area = ''100'', m_mp_number = ''6'', m_mp_party = JStr ''PARTY-0001'', pl_rank = JInt 1,
                 pl_party_code = JStr ''6''\<rparr>], None)
   \<and> matcher rt_sample ''101'' ''9'' (JStr ''PARTY-0002'') (pl_doc [JObj [(''partyCode'', JStr ''9''), (''rank'', JInt 4)]]) []
     = ([''Rank 4 (Party List 9)''],
         [\<lparr>m_area = ''101'', m_mp_number = ''9'', m_mp_party = JStr ''PARTY-0002'', pl_rank = JInt 4,
                 pl_party_code = JStr ''9''\<rparr>], None)"
proof -
  have f1: "fmt rt_sample (JInt 1) = ''1''" by code_simp
  have f4: "fmt rt_sample (JInt 4) = ''4''" by code_simp
  from single_character_code_not_excluded[of "CHR ''6''" "JInt 1" rt_sample "''100''" "JStr ''PARTY-0001''" "[]"]
       single_character_code_not_excluded[of "CHR ''9''" "JInt 4" rt_sample "''101''" "JStr ''PARTY-0002''" "[]"]
       f1 f4
  show ?thesis by simp
qed

section \<open>Properties of the loop over the areas\<close>

text \<open>
  The accumulators of the matcher only grow, and what is appended does not depend on them.
\<close>

lemma scan_pl_acc:
  "scan_pl rt a n p es (ms0 @ ms) (am0 @ am) =
     (case scan_pl rt a n p es ms am of (ms', am', x) \<Rightarrow> (ms0 @ ms', am0 @ am', x))"
  by (induction es arbitrary: ms am) (auto split: sum.splits)

lemma matcher_acc:
  "matcher rt a n p pl_data am =
     (case matcher rt a n p pl_data [] of (ms, new, x) \<Rightarrow> (ms, am @ new, x))"
  using scan_pl_acc[of rt a n p _ "[]" "[]" am "[]"]
  by (auto simp: matcher_def split: sum.splits)

lemma dict_get_both:
  "dict_get e k d = Inr v \<Longrightarrow> \<exists>v'. dict_get e k' d' = Inr v'"
  by (cases e) auto

lemma scan_pl_raises:
  "(snd (snd (scan_pl rt a n p es ms am)) = None) = list_all entry_ok es"
proof (induction es arbitrary: ms am)
  case Nil
  show ?case by simp
next
  case (Cons e es)
  show ?case
  proof (cases "dict_get e ''partyCode'' (JStr [])")
    case (Inl ex)
    then show ?thesis by (simp add: entry_ok_def)
  next
    case (Inr code)
    from dict_get_both[OF Inr] obtain r where r: "dict_get e ''rank'' JNull = Inr r" by blast
    show ?thesis using Inr r Cons.IH
      by (cases "slice_last 2 code") (auto simp: entry_ok_def)
  qed
qed

lemma matcher_raises:
  "(snd (snd (matcher rt a n p pl_data am)) = None) = pl_well_formed pl_data"
  by (auto simp: matcher_def pl_well_formed_def scan_pl_raises split: sum.splits)

lemma st_plus_empty [simp]:
  "\<lparr>console = console st, all_matches = all_matches st, all_rows = all_rows st\<rparr> = (st::loop_state)"
  by simp

lemma try_area_acc:
  "try_area rt fs a mp pl st =
     (case try_area rt fs a mp pl st_empty of
        (d, x) \<Rightarrow> (\<lparr>console = console st @ console d, all_matches = all_matches st @ all_matches d,
                     all_rows = all_rows st @ all_rows d\<rparr>, x))"
proof -
  have m: "\<And>n p pl_data. matcher rt a n p pl_data (all_matches st) =
     (case matcher rt a n p pl_data [] of (ms, new, x) \<Rightarrow> (ms, all_matches st @ new, x))"
    by (rule matcher_acc)
  show ?thesis
    unfolding try_area_def
    by (simp add: m st_empty_def Let_def split: sum.splits option.splits prod.splits)
qed

lemma process_area_acc:
  "process_area rt fs f st =
     \<lparr>console = console st @ area_lines rt fs f,
      all_matches = all_matches st @ area_matches rt fs f,
      all_rows = all_rows st @ area_rows rt fs f\<rparr>"
proof (cases "path_exists fs (path_join pl_dir f)")
  case False
  then show ?thesis
    by (simp add: process_area_def area_lines_def area_matches_def area_rows_def st_empty_def)
next
  case True
  obtain d x where d: "try_area rt fs (remove_all ''.json'' f) (path_join mp_dir f)
      (path_join pl_dir f) st_empty = (d, x)"
    by (cases "try_area rt fs (remove_all ''.json'' f) (path_join mp_dir f) (path_join pl_dir f) st_empty") auto
  have e: "try_area rt fs (remove_all ''.json'' f) (path_join mp_dir f) (path_join pl_dir f) st =
     (\<lparr>console = console st @ console d, all_matches = all_matches st @ all_matches d,
       all_rows = all_rows st @ all_rows d\<rparr>, x)"
    using try_area_acc[of rt fs "remove_all ''.json'' f" "path_join mp_dir f" "path_join pl_dir f" st] d
    by simp
  show ?thesis using True d e
    by (cases x) (simp_all add: process_area_def area_lines_def area_matches_def area_rows_def)
qed

lemma process_files_acc:
  "process_files rt fs names st =
     \<lparr>console = console st @ concat (map (area_lines rt fs) names),
      all_matches = all_matches st @ concat (map (area_matches rt fs) names),
      all_rows = all_rows st @ concat (map (area_rows rt fs) names)\<rparr>"
proof (induction names arbitrary: st)
  case Nil
  show ?case by simp
next
  case (Cons f names)
  show ?case
    by (simp add: Cons.IH) (simp add: process_area_acc[of rt fs f st])
qed

text \<open>The body of the try for one file, by what the MP file holds.\<close>

lemma try_area_no_winner:
  assumes "winner_number fs f = None"
  shows "fst (try_area rt fs (remove_all ''.json'' f) (path_join mp_dir f) (path_join pl_dir f) st) = st"
  using assms
  unfolding try_area_def winner_number_def mp_first_entry_def winning_code_def expected_prefix_def area_of_def
  by (auto split: sum.splits option.splits json.splits list.splits if_splits
      elim!: dict_get.elims subscript0.elims extract_mp_number.elims)

lemma winner_numberD:
  assumes "winner_number fs f = Some n"
  shows "\<exists>kvs tkvs rest c.
      read_json fs (path_join mp_dir f) = Inr (JObj kvs)
    \<and> map_of kvs ''entries'' = Some (JArr (JObj tkvs # rest))
    \<and> mp_first_entry fs f = Some (JObj tkvs)
    \<and> dict_get (JObj tkvs) ''candidateCode'' (JStr []) = Inr (JStr c)
    \<and> startswith c (''CANDIDATE-MP-'' @ remove_all ''.json'' f)
    \<and> n = drop (length (''CANDIDATE-MP-'' @ remove_all ''.json'' f)) c"
proof -
  from assms obtain t where t: "mp_first_entry fs f = Some t"
    by (auto simp: winner_number_def split: option.splits)
  with assms obtain c where c: "winning_code t = Some c"
    by (auto simp: winner_number_def split: option.splits)
  from assms t c have sw: "startswith c (expected_prefix f)"
    and n: "n = drop (length (expected_prefix f)) c"
    by (auto simp: winner_number_def split: if_splits)
  from c obtain tkvs where tk: "t = JObj tkvs"
    by (cases t) (auto simp: winning_code_def)
  from c tk have cc: "dict_get (JObj tkvs) ''candidateCode'' (JStr []) = Inr (JStr c)"
    by (auto simp: winning_code_def split: sum.splits json.splits)
  from t obtain kvs rest where "read_json fs (path_join mp_dir f) = Inr (JObj kvs)"
    "map_of kvs ''entries'' = Some (JArr (t # rest))"
    by (auto simp: mp_first_entry_def split: sum.splits json.splits option.splits list.splits)
  with tk cc sw n t show ?thesis
    by (auto simp: expected_prefix_def area_of_def)
qed

lemma try_area_winner:
  assumes "winner_number fs f = Some n"
  shows "try_area rt fs (remove_all ''.json'' f) (path_join mp_dir f) (path_join pl_dir f) st =
     (if n = [] then (st, None) else
      (case read_json fs (path_join pl_dir f) of
         Inl e \<Rightarrow> (st, Some e)
       | Inr pl_data \<Rightarrow>
          (case matcher rt (remove_all ''.json'' f) n (winner_party fs f) pl_data (all_matches st) of
             (ms, am, Some e) \<Rightarrow> (st\<lparr>all_matches := am\<rparr>, Some e)
           | (ms, am, None) \<Rightarrow>
              (let stat = (if ms \<noteq> [] then ''MATCH: '' @ str_join '', '' ms else ''No Match'');
                   st1 = st\<lparr>all_matches := am,
                      all_rows := all_rows st @
                        [\<lparr>area = remove_all ''.json'' f, mp_number = n, mp_party = winner_party fs f,
                          matched = (0 < length ms), status = stat\<rparr>]\<rparr>
               in if format_spec_ok (winner_party fs f)
                  then (st1\<lparr>console := console st1 @
                          [Row_line (remove_all ''.json'' f) n (winner_party fs f) stat]\<rparr>, None)
                  else (st1, Some TypeError)))))"
proof -
  from winner_numberD[OF assms] obtain kvs tkvs rest c where
    h: "read_json fs (path_join mp_dir f) = Inr (JObj kvs)"
       "map_of kvs ''entries'' = Some (JArr (JObj tkvs # rest))"
       "mp_first_entry fs f = Some (JObj tkvs)"
       "dict_get (JObj tkvs) ''candidateCode'' (JStr []) = Inr (JStr c)"
       "startswith c (''CANDIDATE-MP-'' @ remove_all ''.json'' f)"
       "n = drop (length (''CANDIDATE-MP-'' @ remove_all ''.json'' f)) c"
    by blast
  have p: "dict_get (JObj tkvs) ''partyCode'' (JStr ''Unknown'') = Inr (winner_party fs f)"
    using h(3) by (simp add: winner_party_def)
  have x: "extract_mp_number (JStr c) (''CANDIDATE-MP-'' @ remove_all ''.json'' f) = Inr (Some n)"
    using h(5,6) by simp
  have g: "dict_get (JObj kvs) ''entries'' (JArr []) = Inr (JArr (JObj tkvs # rest))"
    using h(2) by simp
  show ?thesis
    unfolding try_area_def
    by (simp only: h(1) g p x h(4) sum.case truthy.simps subscript0.simps option.case
          list.distinct not_False_eq_True if_False if_True not_True_eq_False)
qed

lemma process_area_cases:
  "process_area rt fs f st =
     (if \<not> path_exists fs (path_join pl_dir f) then st
      else (case try_area rt fs (remove_all ''.json'' f) (path_join mp_dir f) (path_join pl_dir f) st of
              (st', None) \<Rightarrow> st'
            | (st', Some e) \<Rightarrow> st'\<lparr>console := console st' @ [Error_processing (remove_all ''.json'' f) e]\<rparr>))"
  by (simp add: process_area_def Let_def)

lemma process_area_no_winner:
  assumes "winner_number fs f = None"
  shows "all_rows (process_area rt fs f st) = all_rows st"
    and "all_matches (process_area rt fs f st) = all_matches st"
    and "\<exists>ls. console (process_area rt fs f st) = console st @ ls \<and> length ls \<le> 1"
proof -
  obtain st' x where t: "try_area rt fs (remove_all ''.json'' f) (path_join mp_dir f)
      (path_join pl_dir f) st = (st', x)"
    by (cases "try_area rt fs (remove_all ''.json'' f) (path_join mp_dir f) (path_join pl_dir f) st") auto
  with try_area_no_winner[OF assms, of rt st] have s: "st' = st" by simp
  show "all_rows (process_area rt fs f st) = all_rows st"
    using t s by (cases x) (simp_all add: process_area_cases)
  show "all_matches (process_area rt fs f st) = all_matches st"
    using t s by (cases x) (simp_all add: process_area_cases)
  show "\<exists>ls. console (process_area rt fs f st) = console st @ ls \<and> length ls \<le> 1"
    using t s by (cases x) (simp_all add: process_area_cases)
qed

lemma process_area_winner:
  assumes w: "winner_number fs f = Some n" and pe: "path_exists fs (path_join pl_dir f)"
  shows "all_rows (process_area rt fs f st) =
           all_rows st @ (if n \<noteq> [] \<and> pl_scans fs f
              then [\<lparr>area = remove_all ''.json'' f, mp_number = n, mp_party = winner_party fs f,
                     matched = (0 < length (fst (matcher rt (remove_all ''.json'' f) n (winner_party fs f)
                         (case read_json fs (path_join pl_dir f) of Inr d \<Rightarrow> d | Inl e \<Rightarrow> JNull) []))),
                     status = (let ms = fst (matcher rt (remove_all ''.json'' f) n (winner_party fs f)
                         (case read_json fs (path_join pl_dir f) of Inr d \<Rightarrow> d | Inl e \<Rightarrow> JNull) [])
                        in if ms \<noteq> [] then ''MATCH: '' @ str_join '', '' ms else ''No Match'')\<rparr>]
              else [])"
    and "\<exists>ls. console (process_area rt fs f st) = console st @ ls \<and> length ls \<le> 1"
proof -
  show "all_rows (process_area rt fs f st) =
           all_rows st @ (if n \<noteq> [] \<and> pl_scans fs f
              then [\<lparr>area = remove_all ''.json'' f, mp_number = n, mp_party = winner_party fs f,
                     matched = (0 < length (fst (matcher rt (remove_all ''.json'' f) n (winner_party fs f)
                         (case read_json fs (path_join pl_dir f) of Inr d \<Rightarrow> d | Inl e \<Rightarrow> JNull) []))),
                     status = (let ms = fst (matcher rt (remove_all ''.json'' f) n (winner_party fs f)
                         (case read_json fs (path_join pl_dir f) of Inr d \<Rightarrow> d | Inl e \<Rightarrow> JNull) [])
                        in if ms \<noteq> [] then ''MATCH: '' @ str_join '', '' ms else ''No Match'')\<rparr>]
              else [])"
  proof (cases "n = []")
    case True
    then show ?thesis using pe by (simp add: process_area_cases try_area_winner[OF w])
  next
    case ne: False
    show ?thesis
    proof (cases "read_json fs (path_join pl_dir f)")
      case (Inl e)
      then show ?thesis using pe ne
        by (simp add: process_area_cases try_area_winner[OF w] pl_scans_def)
    next
      case (Inr pl_data)
      obtain ms new x where m0: "matcher rt (remove_all ''.json'' f) n (winner_party fs f) pl_data [] = (ms, new, x)"
        by (cases "matcher rt (remove_all ''.json'' f) n (winner_party fs f) pl_data []") auto
      have m: "matcher rt (remove_all ''.json'' f) n (winner_party fs f) pl_data (all_matches st)
          = (ms, all_matches st @ new, x)"
        using matcher_acc[of rt "remove_all ''.json'' f" n "winner_party fs f" pl_data "all_matches st"] m0
        by simp
      have wf: "pl_well_formed pl_data = (x = None)"
        using matcher_raises[of rt "remove_all ''.json'' f" n "winner_party fs f" pl_data "[]"] m0 by simp
      show ?thesis
      proof (cases x)
        case None
        then show ?thesis using pe ne Inr m m0 wf
          by (simp add: process_area_cases try_area_winner[OF w] pl_scans_def Let_def)
      next
        case (Some e)
        then show ?thesis using pe ne Inr m m0 wf
          by (simp add: process_area_cases try_area_winner[OF w] pl_scans_def)
      qed
    qed
  qed
  show "\<exists>ls. console (process_area rt fs f st) = console st @ ls \<and> length ls \<le> 1"
    using pe
    by (auto simp: process_area_cases try_area_winner[OF w] Let_def split: sum.splits prod.splits option.splits)
qed

lemma read_json_exists: "read_json fs p = Inr j \<Longrightarrow> path_exists fs p"
  by (auto simp: read_json_def path_exists_def split: option.splits)

lemma eligible_claimed: "eligible fs f \<Longrightarrow> claimed_eligible fs f"
proof -
  assume e: "eligible fs f"
  then obtain n where n: "winner_number fs f = Some n"
    by (auto simp: eligible_def split: option.splits)
  from winner_numberD[OF n] read_json_exists have "path_exists fs (path_join mp_dir f)" by blast
  with e n show ?thesis by (simp add: eligible_def claimed_eligible_def)
qed

lemma area_matches_winner:
  assumes w: "winner_number fs f = Some n" and pe: "path_exists fs (path_join pl_dir f)"
    and ne: "n \<noteq> []" and r: "read_json fs (path_join pl_dir f) = Inr pl_data"
  shows "area_matches rt fs f = fst (snd (matcher rt (remove_all ''.json'' f) n (winner_party fs f) pl_data []))"
proof -
  obtain ms new x where m0: "matcher rt (remove_all ''.json'' f) n (winner_party fs f) pl_data [] = (ms, new, x)"
    by (cases "matcher rt (remove_all ''.json'' f) n (winner_party fs f) pl_data []") auto
  show ?thesis
    using pe ne r m0
    by (cases x) (simp_all add: area_matches_def process_area_cases try_area_winner[OF w] st_empty_def Let_def)
qed

text \<open>
  Claim C1, as amended. A file of the MP directory yields exactly one Row when it is
  eligible: the PL file of the same name exists, the MP file holds an object with a
  non-empty list of entries whose first entry has a candidate code that starts with the
  expected prefix and goes on after it (the MP number is not empty), and the PL file is
  read and matched without an exception. The Row carries the area code, the MP number,
  the MP party, and the flag that tells whether the area recorded a match. A file that is
  not eligible yields no Row; a file that fails the preconditions of the specification
  records no match either; and in every case the turn of the loop ends normally, with at
  most one more line on the console. (The claim as written asks only for the prefix: see
  the counterexample.)
\<close>

theorem one_row_per_eligible_area:
  "(eligible fs f \<longrightarrow> claimed_eligible fs f \<and>
      (\<exists>r. all_rows (process_area rt fs f st) = all_rows st @ [r]
          \<and> area r = area_of f \<and> winner_number fs f = Some (mp_number r)
          \<and> mp_party r = winner_party fs f \<and> matched r = (area_matches rt fs f \<noteq> [])))
   \<and> (\<not> eligible fs f \<longrightarrow> all_rows (process_area rt fs f st) = all_rows st)
   \<and> (\<not> claimed_eligible fs f \<longrightarrow> all_matches (process_area rt fs f st) = all_matches st)
   \<and> (\<exists>ls. console (process_area rt fs f st) = console st @ ls \<and> length ls \<le> 1)"
proof (cases "winner_number fs f")
  case None
  then have "\<not> eligible fs f" "\<not> claimed_eligible fs f"
    by (simp_all add: eligible_def claimed_eligible_def)
  with process_area_no_winner[OF None, of rt st] show ?thesis by simp
next
  case (Some n)
  show ?thesis
  proof (cases "path_exists fs (path_join pl_dir f)")
    case False
    then have "\<not> eligible fs f" "\<not> claimed_eligible fs f"
      by (simp_all add: eligible_def claimed_eligible_def)
    moreover have "process_area rt fs f st = st" using False by (simp add: process_area_cases)
    ultimately show ?thesis by simp
  next
    case pe: True
    note rows = process_area_winner(1)[OF Some pe, of rt st]
    note cons = process_area_winner(2)[OF Some pe, of rt st]
    show ?thesis
    proof (cases "eligible fs f")
      case False
      then have "\<not> (n \<noteq> [] \<and> pl_scans fs f)" using Some pe by (simp add: eligible_def)
      with rows have "all_rows (process_area rt fs f st) = all_rows st" by simp
      moreover have "claimed_eligible fs f"
        using winner_numberD[OF Some] read_json_exists Some pe
        by (auto simp: claimed_eligible_def)
      ultimately show ?thesis using False cons by simp
    next
      case True
      then have ne: "n \<noteq> []" and ps: "pl_scans fs f" using Some by (simp_all add: eligible_def)
      from ps obtain pl_data where r: "read_json fs (path_join pl_dir f) = Inr pl_data"
        by (auto simp: pl_scans_def split: sum.splits)
      obtain ms new x where m0: "matcher rt (remove_all ''.json'' f) n (winner_party fs f) pl_data [] = (ms, new, x)"
        by (cases "matcher rt (remove_all ''.json'' f) n (winner_party fs f) pl_data []") auto
      from matcher_appends[OF m0] have len: "length ms = length new" by auto
      have am: "area_matches rt fs f = new"
        using area_matches_winner[OF Some pe ne r, of rt] m0 by simp
      have "\<exists>r. all_rows (process_area rt fs f st) = all_rows st @ [r]
          \<and> area r = area_of f \<and> winner_number fs f = Some (mp_number r)
          \<and> mp_party r = winner_party fs f \<and> matched r = (area_matches rt fs f \<noteq> [])"
        using rows ne ps r m0 len am Some by (simp add: area_of_def)
      with True eligible_claimed[OF True] cons show ?thesis by simp
    qed
  qed
qed

lemma sample_eligible:
  "eligible fs_sample ''100.json''" "\<not> eligible fs_sample ''103.json''"
  "\<not> claimed_eligible fs_sample ''102.json''"
  by code_simp+

theorem one_row_per_eligible_area_witness:
  "eligible fs_sample ''100.json'' \<and> \<not> eligible fs_sample ''103.json''
   \<and> \<not> claimed_eligible fs_sample ''102.json''
   \<and> (\<exists>r. all_rows (process_area rt_sample fs_sample ''100.json'' st_empty) = [r]
          \<and> area r = area_of ''100.json'')
   \<and> all_rows (process_area rt_sample fs_sample ''103.json'' st_empty) = []
   \<and> all_matches (process_area rt_sample fs_sample ''102.json'' st_empty) = []"
  using one_row_per_eligible_area[of fs_sample "''100.json''" rt_sample st_empty]
    one_row_per_eligible_area[of fs_sample "''103.json''" rt_sample st_empty]
    one_row_per_eligible_area[of fs_sample "''102.json''" rt_sample st_empty]
    sample_eligible
  by (auto simp: st_empty_def)

text \<open>
  The claim as written fails. In the sample data the winning code of area 103 is the bare
  prefix, so the MP number is empty and the area is left out; the PL file of area 104 is
  corrupt, so the exception handler takes over. Both areas meet the three preconditions
  of the claim, and neither yields a Row.
\<close>

theorem bare_prefix_counterexample:
  "claimed_eligible fs_sample ''103.json''
   \<and> all_rows (process_area rt_sample fs_sample ''103.json'' st_empty) = []
   \<and> claimed_eligible fs_sample ''104.json''
   \<and> all_rows (process_area rt_sample fs_sample ''104.json'' st_empty) = []"
  by code_simp

lemma area_lines_exception:
  assumes "path_exists fs (path_join pl_dir f)" and "area_exception rt fs f = Some e"
  shows "\<exists>ls. area_lines rt fs f = ls @ [Error_processing (area_of f) e]"
proof -
  obtain d x where d: "try_area rt fs (remove_all ''.json'' f) (path_join mp_dir f)
      (path_join pl_dir f) st_empty = (d, x)"
    by (cases "try_area rt fs (remove_all ''.json'' f) (path_join mp_dir f) (path_join pl_dir f) st_empty") auto
  with assms(2) have "x = Some e" by (simp add: area_exception_def)
  with d assms(1) show ?thesis
    by (simp add: area_lines_def process_area_cases area_of_def)
qed

text \<open>
  Claim C8. The loop over the files always runs to its end: what it leaves is the starting
  state followed, file by file, by what each file adds on its own, so no file changes or
  suppresses the Rows of another. Whenever the body of the \<^verbatim>\<open>try\<close> raises an exception for
  a file, a line with the area code and the exception is on the console.
\<close>

theorem area_exceptions_are_caught:
  "all_rows (process_files rt fs names st) = all_rows st @ concat (map (area_rows rt fs) names)
   \<and> all_matches (process_files rt fs names st)
        = all_matches st @ concat (map (area_matches rt fs) names)
   \<and> console (process_files rt fs names st) = console st @ concat (map (area_lines rt fs) names)
   \<and> (\<forall>f \<in> set names. \<forall>e.
         path_exists fs (path_join pl_dir f) \<and> area_exception rt fs f = Some e \<longrightarrow>
           Error_processing (area_of f) e \<in> set (console (process_files rt fs names st)))"
proof -
  have c: "console (process_files rt fs names st) = console st @ concat (map (area_lines rt fs) names)"
    by (subst process_files_acc) simp
  have "Error_processing (area_of f) e \<in> set (console (process_files rt fs names st))"
    if f: "f \<in> set names" and pe: "path_exists fs (path_join pl_dir f)"
      and x: "area_exception rt fs f = Some e" for f e
  proof -
    from area_lines_exception[OF pe x] have "Error_processing (area_of f) e \<in> set (area_lines rt fs f)"
      by auto
    with f show ?thesis unfolding c by auto
  qed
  moreover have "all_rows (process_files rt fs names st) = all_rows st @ concat (map (area_rows rt fs) names)"
    by (subst process_files_acc) simp
  moreover have "all_matches (process_files rt fs names st)
        = all_matches st @ concat (map (area_matches rt fs) names)"
    by (subst process_files_acc) simp
  ultimately show ?thesis using c by blast
qed

theorem area_exceptions_are_caught_witness:
  "path_exists fs_sample (path_join pl_dir ''102.json'')
   \<and> area_exception rt_sample fs_sample ''102.json'' = Some JSONDecodeError
   \<and> Error_processing ''102'' JSONDecodeError
        \<in> set (console (process_files rt_sample fs_sample [''100.json'', ''102.json'', ''106.json''] st_empty))
   \<and> map area (all_rows (process_files rt_sample fs_sample [''100.json'', ''102.json'', ''106.json''] st_empty))
        = [''100'', ''106'']"
proof -
  have h: "path_exists fs_sample (path_join pl_dir ''102.json'')"
    "area_exception rt_sample fs_sample ''102.json'' = Some JSONDecodeError"
    "area_of ''102.json'' = ''102''"
    by code_simp+
  have r: "map area (concat (map (area_rows rt_sample fs_sample) [''100.json'', ''102.json'', ''106.json'']))
      = [''100'', ''106'']"
    by code_simp
  from area_exceptions_are_caught[of rt_sample fs_sample "[''100.json'', ''102.json'', ''106.json'']" st_empty]
    h r show ?thesis
    by (auto simp: st_empty_def)
qed

section \<open>Properties of the summary\<close>

lemma item_key_pair: "item_key (q, c) = hash_key q"
  by (simp add: item_key_def)

lemma bump_keys:
  "map item_key (bump p pc) =
     (if hash_key p \<in> set (map item_key pc) then map item_key pc else map item_key pc @ [hash_key p])"
proof (induction pc)
  case Nil
  show ?case by (simp add: item_key_pair)
next
  case (Cons item pc)
  obtain q c where i: "item = (q, c)" by (cases item)
  show ?case using Cons.IH by (auto simp: i item_key_pair)
qed

lemma bump_count:
  "count_of (bump p pc) k = count_of pc k + (if k = hash_key p then 1 else 0)"
proof (induction pc)
  case Nil
  show ?case by (simp add: count_of_def item_key_pair)
next
  case (Cons item pc)
  obtain q c where i: "item = (q, c)" by (cases item)
  show ?case using Cons.IH by (auto simp: i count_of_def item_key_pair)
qed

lemma count_parties_inv:
  "count_parties ms pc = Inr pc' \<Longrightarrow>
     map item_key pc' = first_seen (map item_key pc) (map party_key ms)
     \<and> (\<forall>k. count_of pc' k = count_of pc k + occurrences k ms)"
proof (induction ms arbitrary: pc)
  case Nil
  then show ?case by (simp add: occurrences_def)
next
  case (Cons m ms)
  from Cons.prems obtain k where k: "hash_key (m_mp_party m) = Some k"
    and r: "count_parties ms (bump (m_mp_party m) pc) = Inr pc'"
    by (auto split: option.splits)
  from Cons.IH[OF r] show ?case
    by (auto simp: bump_keys bump_count occurrences_def party_key_def)
qed

lemma first_seen_distinct:
  "distinct seen \<Longrightarrow> distinct (first_seen seen xs)"
  by (induction xs arbitrary: seen) auto

lemma first_seen_set:
  "set (first_seen seen xs) = set seen \<union> set xs"
  by (induction xs arbitrary: seen) auto

lemma count_of_member:
  "distinct (map item_key pc) \<Longrightarrow> (p, c) \<in> set pc \<Longrightarrow> count_of pc (hash_key p) = c"
proof (induction pc)
  case Nil
  then show ?case by simp
next
  case (Cons item pc)
  obtain q d where i: "item = (q, d)" by (cases item)
  show ?case
  proof (cases "(p, c) = item")
    case True
    then show ?thesis by (simp add: i count_of_def item_key_pair)
  next
    case False
    with Cons.prems have m: "(p, c) \<in> set pc" by simp
    then have "item_key (p, c) \<in> item_key ` set pc" by (rule imageI)
    then have "hash_key p \<in> set (map item_key pc)" by (simp add: item_key_pair)
    moreover from Cons.prems(1) have "item_key item \<notin> set (map item_key pc)" by simp
    ultimately have "item_key item \<noteq> hash_key p" by metis
    moreover have "count_of pc (hash_key p) = c" using Cons.IH Cons.prems(1) m by simp
    ultimately show ?thesis by (simp add: count_of_def)
  qed
qed

lemma sorted_parties_props:
  "sorted_wrt (\<lambda>a b. snd a \<ge> snd b) (sorted_parties pc)"
  "mset (sorted_parties pc) = mset pc"
  "filter (\<lambda>item. snd item = c) (sorted_parties pc) = filter (\<lambda>item. snd item = c) pc"
proof -
  have "sorted (map (\<lambda>item. - int (snd item)) (sorted_parties pc))"
    unfolding sorted_parties_def by (rule sorted_sort_key)
  then show "sorted_wrt (\<lambda>a b. snd a \<ge> snd b) (sorted_parties pc)"
    by (simp add: sorted_wrt_map)
  show "mset (sorted_parties pc) = mset pc"
    by (simp add: sorted_parties_def)
  have "filter (\<lambda>item. - int (snd item) = - int c) (sorted_parties pc)
      = filter (\<lambda>item. - int (snd item) = - int c) pc"
    unfolding sorted_parties_def by (rule sort_key_stable)
  then show "filter (\<lambda>item. snd item = c) (sorted_parties pc) = filter (\<lambda>item. snd item = c) pc"
    by simp
qed


lemma print_parties_lines:
  "print_parties items con = (con', None) \<Longrightarrow>
     con' = con @ map (\<lambda>(p, c). Party_line p c) items"
proof (induction items arbitrary: con)
  case Nil
  then show ?case by simp
next
  case (Cons item items)
  obtain p c where i: "item = (p, c)" by (cases item)
  from Cons.prems i have "print_parties items (con @ [Party_line p c]) = (con', None)"
    by (simp split: if_splits)
  from Cons.IH[OF this] show ?case by (simp add: i)
qed

text \<open>
  Claim C4. When the counting succeeds, the count of each party is the number of matches
  (not of areas) whose MP party has that key; the parties stand in the dict in the order in
  which they are first met; the sorted list is a rearrangement of the dict in descending
  order of count in which parties of equal count keep that order; the exported
  \<^verbatim>\<open>summary_by_party\<close> is this sorted list, and so is the table that is printed.
\<close>

theorem summary_counts_and_order:
  assumes "count_parties ms [] = Inr pc"
  shows "(\<forall>(p, c) \<in> set pc. c = occurrences (hash_key p) ms)
       \<and> map item_key pc = first_seen [] (map party_key ms)
       \<and> distinct (map item_key pc)
       \<and> sorted_wrt (\<lambda>a b. snd a \<ge> snd b) (sorted_parties pc)
       \<and> mset (sorted_parties pc) = mset pc
       \<and> (\<forall>c. filter (\<lambda>item. snd item = c) (sorted_parties pc)
                = filter (\<lambda>item. snd item = c) pc)
       \<and> summary_by_party pc
           = map (\<lambda>(p, c). JObj [(''party_code'', p), (''match_count'', JInt (int c))])
               (sorted_parties pc)
       \<and> (\<forall>con con' pc'. ms \<noteq> [] \<and> summary ms con = (con', Inr pc') \<longrightarrow>
             pc' = pc \<and> (\<exists>pre. con' = pre @ map (\<lambda>(p, c). Party_line p c) (sorted_parties pc)
                                        @ [Text (replicate 40 CHR ''='')]))"
proof -
  from count_parties_inv[OF assms]
  have keys: "map item_key pc = first_seen [] (map party_key ms)"
    and cnt: "\<forall>k. count_of pc k = occurrences k ms"
    by (simp_all add: count_of_def)
  have dist: "distinct (map item_key pc)"
    unfolding keys by (rule first_seen_distinct) simp
  have a: "\<forall>(p, c) \<in> set pc. c = occurrences (hash_key p) ms"
    using count_of_member[OF dist] cnt by auto
  have s: "pc' = pc \<and> (\<exists>pre. con' = pre @ map (\<lambda>(p, c). Party_line p c) (sorted_parties pc)
                                        @ [Text (replicate 40 CHR ''='')])"
    if ne: "ms \<noteq> []" and su: "summary ms con = (con', Inr pc')" for con con' pc'
  proof -
    let ?c = "con @ [Text (CHR 0x0A # replicate 40 CHR ''=''),
                        Text (center 40 ''SUMMARY BY PARTY (DESC)''),
                        Text (replicate 40 CHR ''='')] @
                   [Text (ljust 20 ''Party Code'' @ '' | '' @ ljust 10 ''Match Count''),
                                   Text (replicate 40 CHR ''-'')]"
    obtain c2 x where pp: "print_parties (sorted_parties pc) ?c = (c2, x)"
      by (cases "print_parties (sorted_parties pc) ?c") auto
    from su ne assms pp have x: "x = None" and r: "con' = c2 @ [Text (replicate 40 CHR ''='')]"
      and p: "pc' = pc"
      by (auto simp: summary_def Let_def split: option.splits)
    from print_parties_lines[OF pp[unfolded x]] r p show ?thesis by auto
  qed
  from a keys dist s sorted_parties_props[where pc=pc] show ?thesis
    by (simp add: summary_by_party_def) blast
qed

theorem summary_counts_and_order_witness:
  "count_parties ms_sample [] = Inr [(JStr ''B'', 1), (JStr ''A'', 2), (JStr ''C'', 1)]
   \<and> occurrences (hash_key (JStr ''A'')) ms_sample = 2
   \<and> sorted_parties [(JStr ''B'', 1), (JStr ''A'', 2), (JStr ''C'', 1)]
        = [(JStr ''A'', 2), (JStr ''B'', 1), (JStr ''C'', 1)]
   \<and> mset (sorted_parties [(JStr ''B'', 1), (JStr ''A'', 2), (JStr ''C'', 1)])
        = mset [(JStr ''B'', 1), (JStr ''A'', 2), (JStr ''C'', 1)]
   \<and> summary_by_party [(JStr ''B'', 1), (JStr ''A'', 2), (JStr ''C'', 1)]
        = [JObj [(''party_code'', JStr ''A''), (''match_count'', JInt 2)],
           JObj [(''party_code'', JStr ''B''), (''match_count'', JInt 1)],
           JObj [(''party_code'', JStr ''C''), (''match_count'', JInt 1)]]"
proof -
  have h: "count_parties ms_sample [] = Inr [(JStr ''B'', 1), (JStr ''A'', 2), (JStr ''C'', 1)]"
    by code_simp
  have s: "sorted_parties [(JStr ''B'', 1), (JStr ''A'', 2), (JStr ''C'', 1)]
        = [(JStr ''A'', 2), (JStr ''B'', 1), (JStr ''C'', 1)]"
    by code_simp
  have o: "occurrences (hash_key (JStr ''A'')) ms_sample = 2"
    by code_simp
  have b: "summary_by_party [(JStr ''B'', 1), (JStr ''A'', 2), (JStr ''C'', 1)]
        = [JObj [(''party_code'', JStr ''A''), (''match_count'', JInt 2)],
           JObj [(''party_code'', JStr ''B''), (''match_count'', JInt 1)],
           JObj [(''party_code'', JStr ''C''), (''match_count'', JInt 1)]]"
    by code_simp
  from summary_counts_and_order[OF h]
  have m: "mset (sorted_parties [(JStr ''B'', 1), (JStr ''A'', 2), (JStr ''C'', 1)])
        = mset [(JStr ''B'', 1), (JStr ''A'', 2), (JStr ''C'', 1)]"
    by (elim conjE)
  from h o s m b show ?thesis by (intro conjI)
qed

section \<open>Properties of the export and of the whole run\<close>

lemma write_json_lookup:
  "write_json fs p j = Inr fs' \<Longrightarrow>
     map_of fs' q = (if q = p then Some (File (Document j)) else map_of fs q)"
  by (auto simp: write_json_def update_conv' split: option.splits node.splits)

lemma write_json_ok:
  "map_of fs p \<noteq> Some Dir \<Longrightarrow> map_of fs (dirname p) = Some Dir \<Longrightarrow>
     \<exists>fs'. write_json fs p j = Inr fs'"
  by (auto simp: write_json_def split: option.splits node.splits)

lemma dirname_paths:
  "dirname results_path = ''docs/data''" "dirname history_path = ''docs/data''"
  "results_path \<noteq> history_path" "history_path \<noteq> results_path"
  "results_path \<noteq> ''docs''" "results_path \<noteq> ''docs/data''"
  "history_path \<noteq> ''docs''" "history_path \<noteq> ''docs/data''"
  "''docs'' \<noteq> results_path" "''docs/data'' \<noteq> results_path"
  "''docs'' \<noteq> history_path" "''docs/data'' \<noteq> history_path"
  by (simp_all add: dirname_def results_path_def history_path_def path_join_def)

lemma ancestors_output: "ancestors ''docs/data'' = [''docs'', ''docs/data'']"
  by code_simp

lemma makedirs_output:
  assumes "output_writable fs"
  shows "\<exists>fs1. makedirs fs ''docs/data'' = Inr fs1 \<and> map_of fs1 ''docs/data'' = Some Dir
     \<and> (\<forall>p. p \<noteq> ''docs'' \<and> p \<noteq> ''docs/data'' \<longrightarrow> map_of fs1 p = map_of fs p)"
  using assms
  by (auto simp: makedirs_def ancestors_output output_writable_def map_add_def
      split: option.splits node.splits)

lemma matched_areas_length: "matched_areas rows = int (length (filter matched rows))"
  by (induction rows) (auto simp: matched_areas_def)

lemma export_results_file:
  assumes "export_results rt fs rows ams pc con = (con', fs', None)"
  shows "read_json fs' results_path =
     Inr (JObj [(''timestamp'', JStr (utc_now_iso rt)),
                (''total_areas'', JInt (total_areas rows)),
                (''matched_areas'', JInt (matched_areas rows)),
                (''match_rate'', match_rate rt rows),
                (''summary_by_party'', JArr (summary_by_party pc)),
                (''matches'', JArr (map match_json ams)),
                (''details'', JArr (map row_json rows))])"
proof -
  let ?res = "JObj [(''timestamp'', JStr (utc_now_iso rt)),
                (''total_areas'', JInt (total_areas rows)),
                (''matched_areas'', JInt (matched_areas rows)),
                (''match_rate'', match_rate rt rows),
                (''summary_by_party'', JArr (summary_by_party pc)),
                (''matches'', JArr (map match_json ams)),
                (''details'', JArr (map row_json rows))]"
  from assms obtain fs1 where m: "makedirs fs ''docs/data'' = Inr fs1"
    by (auto simp: export_results_def Let_def split: sum.splits)
  with assms obtain fs2 where w: "write_json fs1 results_path ?res = Inr fs2"
    by (auto simp: export_results_def Let_def results_path_def split: sum.splits)
  with assms m obtain h where
    w2: "write_json fs2 history_path h = Inr fs'"
    by (auto simp: export_results_def Let_def results_path_def history_path_def split: sum.splits)
  from write_json_lookup[OF w2, of results_path] write_json_lookup[OF w, of results_path]
  have "map_of fs' results_path = Some (File (Document ?res))"
    by (simp add: dirname_paths)
  then show ?thesis by (simp add: read_json_def)
qed

section \<open>Properties of the match rate\<close>

text \<open>Rounding to a float moves a number by at most one part in \<open>2 ^ 53\<close> of it.\<close>

lemma round_half_even_error: "\<bar>of_int (round_half_even y) - y\<bar> \<le> 1 / 2"
proof -
  have "of_int \<lfloor>y\<rfloor> \<le> y" "y < of_int \<lfloor>y\<rfloor> + 1" by linarith+
  then show ?thesis
    by (auto simp: round_half_even_def Let_def)
qed

lemma round_half_even_nonneg: "0 \<le> y \<Longrightarrow> 0 \<le> round_half_even y"
  by (auto simp: round_half_even_def Let_def)

lemma floor_log2_le:
  assumes "0 < x"
  shows "2 powi (floor_log2 x) \<le> x"
proof -
  obtain p q where pq: "quotient_of x = (p, q)" by (cases "quotient_of x")
  then have x: "x = of_int p / of_int q" and q: "0 < q"
    by (simp_all add: quotient_of_div quotient_of_denom_pos)
  from assms x q have p: "0 < p" by (simp add: zero_less_divide_iff)
  let ?e0 = "bitlen p - bitlen q"
  show ?thesis
  proof (cases "2 powi ?e0 \<le> x")
    case True
    then show ?thesis by (simp add: floor_log2_def pq Let_def)
  next
    case False
    from bitlen_bounds[OF p] have "(2::int) ^ nat (bitlen p - 1) \<le> p" by simp
    then have "(of_int ((2::int) ^ nat (bitlen p - 1)) :: rat) \<le> of_int p" by (simp only: of_int_le_iff)
    moreover have "1 \<le> bitlen p" using p bitlen_bounds[OF p] bitlen_nonneg[of p]
      by (smt (verit) nat_0_iff power_0 zless_nat_conj)
    ultimately have lo: "(2::rat) powi (bitlen p - 1) \<le> of_int p"
      by (simp add: power_int_def)
    from bitlen_bounds[OF q] have "q < (2::int) ^ nat (bitlen q)" by simp
    then have "(of_int q :: rat) < of_int ((2::int) ^ nat (bitlen q))" by (simp only: of_int_less_iff)
    then have hi: "(of_int q :: rat) \<le> 2 powi (bitlen q)"
      using bitlen_nonneg[of q] by (simp add: power_int_def)
    have "?e0 - 1 = (bitlen p - 1) - bitlen q" by simp
    then have "(2::rat) powi (?e0 - 1) = 2 powi (bitlen p - 1) / 2 powi (bitlen q)"
      by (simp only: power_int_diff[of "2::rat", simplified])
    also have "\<dots> \<le> of_int p / 2 powi (bitlen q)"
      using lo by (simp add: divide_right_mono)
    also have "\<dots> \<le> of_int p / of_int q"
      using hi p q by (simp add: divide_left_mono)
    finally have "(2::rat) powi (?e0 - 1) \<le> of_int p / of_int q" .
    then have "(2::rat) powi (?e0 - 1) \<le> x" by (simp only: x[symmetric])
    moreover have "floor_log2 x = ?e0 - 1" using False by (simp add: floor_log2_def pq Let_def)
    ultimately show ?thesis by simp
  qed
qed

lemma to_double_zero: "to_double 0 = 0"
  by (simp add: to_double_def)

lemma to_double_error:
  assumes "0 \<le> x"
  shows "\<bar>to_double x - x\<bar> \<le> x / 2 ^ 53 + 1 / 2 ^ 54" and "0 \<le> to_double x"
proof -
  have both: "\<bar>to_double x - x\<bar> \<le> x / 2 ^ 53 + 1 / 2 ^ 54 \<and> 0 \<le> to_double x"
  proof (cases "x = 0")
    case True
    then show ?thesis by (simp add: to_double_zero)
  next
    case False
    with assms have pos: "0 < x" by simp
    define e where "e = max (floor_log2 x - 52) (- 1074)"
    define y where "y = x / 2 powi e"
    define k where "k = round_half_even y"
    have p2: "(0::rat) < 2 powi e" by (simp add: zero_less_power_int)
    have td: "to_double x = of_int k * 2 powi e"
      using pos by (simp add: to_double_def e_def y_def k_def Let_def)
    have xy: "x = y * 2 powi e" using p2 by (simp add: y_def)
    have ynn: "0 \<le> y" using pos p2 by (simp add: y_def)
    have knn: "0 \<le> k" unfolding k_def by (rule round_half_even_nonneg[OF ynn])
    have "to_double x - x = (of_int k - y) * 2 powi e"
      by (subst td, subst xy) (simp add: algebra_simps)
    then have "\<bar>to_double x - x\<bar> = \<bar>of_int k - y\<bar> * 2 powi e"
      using p2 by (simp add: abs_mult)
    also have "\<dots> \<le> (1 / 2) * 2 powi e"
      using round_half_even_error[of y] p2 unfolding k_def
      by (intro mult_right_mono) simp_all
    finally have err: "\<bar>to_double x - x\<bar> \<le> (1 / 2) * 2 powi e" .
    have pe: "(2::rat) powi e \<le> x / 2 ^ 52 + 1 / 2 ^ 53"
    proof (cases "floor_log2 x - 52 \<ge> - 1074")
      case True
      then have "e = floor_log2 x - 52" by (simp add: e_def)
      then have "(2::rat) powi e = 2 powi (floor_log2 x) / 2 ^ 52"
        by (simp add: power_int_diff)
      also have "\<dots> \<le> x / 2 ^ 52"
        using floor_log2_le[OF pos] by (simp add: divide_right_mono)
      finally show ?thesis by simp
    next
      case False
      then have "e = - 1074" by (simp add: e_def)
      then have "(2::rat) powi e = 1 / 2 ^ 1074" by (simp add: power_int_minus_divide)
      also have "\<dots> \<le> 1 / 2 ^ 53"
        by (intro divide_left_mono power_increasing) simp_all
      finally show ?thesis using pos by (simp add: add_increasing)
    qed
    have "(1 / 2) * (2::rat) powi e \<le> (1 / 2) * (x / 2 ^ 52 + 1 / 2 ^ 53)"
      using pe by (intro mult_left_mono) simp_all
    with err have "\<bar>to_double x - x\<bar> \<le> (1 / 2) * (x / 2 ^ 52 + 1 / 2 ^ 53)"
      by (rule order_trans)
    then have "\<bar>to_double x - x\<bar> \<le> x / 2 ^ 53 + 1 / 2 ^ 54" by simp
    moreover have "0 \<le> to_double x" using knn p2 by (simp add: td)
    ultimately show ?thesis by simp
  qed
  from both show "\<bar>to_double x - x\<bar> \<le> x / 2 ^ 53 + 1 / 2 ^ 54" by simp
  from both show "0 \<le> to_double x" by simp
qed

lemma percent_error:
  assumes "0 \<le> m" and "m \<le> t" and "0 < t"
  shows "\<bar>py_round (py_float_mul (py_truediv m t) 100) 2 - 100 * of_int m / of_int t\<bar>
           \<le> 1 / 200 + 1 / 2 ^ 42"
proof -
  define u :: rat where "u = 1 / 2 ^ 53"
  define x0 :: rat where "x0 = of_int m / of_int t"
  define q where "q = py_truediv m t"
  define p where "p = py_float_mul q 100"
  define k where "k = round_half_even (p * 100)"
  define r where "r = py_round p 2"
  have u: "0 < u" "2048 * u = 1 / 2 ^ 42" by (simp_all add: u_def)
  have err: "\<bar>to_double x - x\<bar> \<le> x * u + u / 2" if "0 \<le> x" for x
    using to_double_error(1)[OF that] by (simp add: u_def)
  have x0: "0 \<le> x0" "x0 \<le> 1" using assms by (simp_all add: x0_def)
  have q0: "0 \<le> q" using to_double_error(2)[OF x0(1)] by (simp add: q_def py_truediv_def x0_def)
  have "\<bar>q - x0\<bar> \<le> x0 * u + u / 2"
    using err[OF x0(1)] by (simp add: q_def py_truediv_def x0_def)
  moreover have "x0 * u \<le> 1 * u" using x0(2) u(1) by (intro mult_right_mono) simp_all
  ultimately have e1: "\<bar>q - x0\<bar> \<le> 2 * u" using u(1) by linarith
  have u1: "u \<le> 1" by (simp add: u_def)
  have q2: "q \<le> 3" using e1 x0 u1 by linarith
  have q100: "0 \<le> q * 100" using q0 by simp
  have p0: "0 \<le> p" using to_double_error(2)[OF q100] by (simp add: p_def py_float_mul_def)
  have "\<bar>p - q * 100\<bar> \<le> (q * 100) * u + u / 2"
    using err[OF q100] by (simp add: p_def py_float_mul_def)
  moreover have "(q * 100) * u \<le> 300 * u" using q2 u(1) by (intro mult_right_mono) simp_all
  ultimately have e2: "\<bar>p - q * 100\<bar> \<le> 301 * u" using u(1) by linarith
  have p2: "p \<le> 700" using e2 q2 u1 by linarith
  have kk: "\<bar>of_int k - p * 100\<bar> \<le> 1 / 2"
    using round_half_even_error[of "p * 100"] by (simp add: k_def)
  have k0: "0 \<le> k" using round_half_even_nonneg[of "p * 100"] p0 by (simp add: k_def)
  define c :: rat where "c = of_int k / 100"
  have c0: "0 \<le> c" using k0 by (simp add: c_def)
  have ck: "of_int k = c * 100" by (simp add: c_def)
  have e3: "\<bar>c - p\<bar> \<le> 1 / 200" using kk unfolding ck by linarith
  have cb: "c \<le> 701" using e3 p2 by linarith
  have rc: "r = to_double c" by (simp add: r_def py_round_def k_def c_def)
  have "\<bar>r - c\<bar> \<le> c * u + u / 2" using err[OF c0] by (simp add: rc)
  moreover have "c * u \<le> 701 * u" using cb u(1) by (intro mult_right_mono) simp_all
  ultimately have e4: "\<bar>r - c\<bar> \<le> 702 * u" using u(1) by linarith
  have "\<bar>r - 100 * x0\<bar> \<le> 1 / 200 + 2048 * u"
    using e1 e2 e3 e4 u(1) by linarith
  then show ?thesis by (simp add: u(2) r_def p_def q_def x0_def)
qed

lemma export_results_completes:
  assumes "output_writable fs" and "history_absent_corrupt_or_array fs"
  shows "\<exists>con' fs'. export_results rt fs rows ams pc con = (con', fs', None)"
proof -
  let ?res = "JObj [(''timestamp'', JStr (utc_now_iso rt)),
                (''total_areas'', JInt (total_areas rows)),
                (''matched_areas'', JInt (matched_areas rows)),
                (''match_rate'', match_rate rt rows),
                (''summary_by_party'', JArr (summary_by_party pc)),
                (''matches'', JArr (map match_json ams)),
                (''details'', JArr (map row_json rows))]"
  from makedirs_output[OF assms(1)] obtain fs1 where
    m: "makedirs fs ''docs/data'' = Inr fs1" and d1: "map_of fs1 ''docs/data'' = Some Dir"
    and same: "\<forall>p. p \<noteq> ''docs'' \<and> p \<noteq> ''docs/data'' \<longrightarrow> map_of fs1 p = map_of fs p"
    by blast
  have "map_of fs1 results_path \<noteq> Some Dir"
    using same assms(1) by (simp add: dirname_paths output_writable_def)
  from write_json_ok[OF this, of ?res] d1 obtain fs2 where
    w: "write_json fs1 results_path ?res = Inr fs2"
    by (auto simp: dirname_paths)
  have h2: "map_of fs2 history_path = map_of fs history_path"
    using write_json_lookup[OF w, of history_path] same by (simp add: dirname_paths)
  have d2: "map_of fs2 ''docs/data'' = Some Dir"
    using write_json_lookup[OF w, of "''docs/data''"] d1 by (simp add: dirname_paths)
  have "\<exists>xs. load_history fs2 history_path = JArr xs"
    using assms(2) h2
    by (auto simp: load_history_def path_exists_def read_json_def
        history_absent_corrupt_or_array_def
        split: option.splits node.splits contents.splits json.splits)
  then obtain xs where l: "load_history fs2 history_path = JArr xs" by blast
  have nd: "map_of fs2 history_path \<noteq> Some Dir"
    using assms(2) h2 by (auto simp: history_absent_corrupt_or_array_def)
  from write_json_ok[OF nd, of "JArr (xs @ [snapshot rt rows pc])"] d2 obtain fs3 where
    w3: "write_json fs2 history_path (JArr (xs @ [snapshot rt rows pc])) = Inr fs3"
    by (auto simp: dirname_paths)
  show ?thesis
    using m w w3 l
    by (simp add: export_results_def Let_def results_path_def[symmetric] history_path_def[symmetric])
qed

lemma matched_le_total: "matched_areas rows \<le> total_areas rows" "0 \<le> matched_areas rows"
  by (simp_all add: matched_areas_length total_areas_def)

text \<open>
  Claim C6, as amended. \<^verbatim>\<open>total_areas\<close> is the number of Rows and \<^verbatim>\<open>matched_areas\<close>
  the number of Rows whose flag \<^verbatim>\<open>matched\<close> is true. With no Row the match rate is the
  integer 0. Otherwise it is the float that \<^verbatim>\<open>round(matched_areas / total_areas * 100, 2)\<close>
  gives in Python's float arithmetic: the float nearest to a number with 2 decimal places,
  no further than \<open>1 / 200 + 1 / 2 ^ 42\<close> from the exact percentage. An export that is
  not hindered writes these three values to the results file. (The rate is not always the
  exact percentage rounded to 2 decimal places: see the counterexample.)
\<close>

theorem match_rate_value:
  assumes "ieee_floats rt"
  shows "total_areas rows = int (length rows)
   \<and> matched_areas rows = int (length (filter matched rows))
   \<and> (total_areas rows = 0 \<longrightarrow> match_rate rt rows = JInt 0)
   \<and> (total_areas rows \<noteq> 0 \<longrightarrow>
        match_rate rt rows =
          JFloat (py_round (py_float_mul (py_truediv (matched_areas rows) (total_areas rows)) 100) 2)
        \<and> (\<exists>k. 0 \<le> k \<and> match_rate rt rows = JFloat (to_double (of_int k / 100)))
        \<and> (\<forall>r. match_rate rt rows = JFloat r \<longrightarrow>
               \<bar>r - exact_percent rows\<bar> \<le> 1 / 200 + 1 / 2 ^ 42))
   \<and> (\<forall>fs ams pc con.
         output_writable fs \<and> history_absent_corrupt_or_array fs \<longrightarrow>
           (\<exists>con' fs' kvs. export_results rt fs rows ams pc con = (con', fs', None)
              \<and> read_json fs' results_path = Inr (JObj kvs)
              \<and> map_of kvs ''total_areas'' = Some (JInt (total_areas rows))
              \<and> map_of kvs ''matched_areas'' = Some (JInt (matched_areas rows))
              \<and> map_of kvs ''match_rate'' = Some (match_rate rt rows)))"
proof -
  let ?m = "matched_areas rows" and ?t = "total_areas rows"
  let ?p = "py_float_mul (py_truediv ?m ?t) 100"
  have t: "0 \<le> ?t" by (simp add: total_areas_def)
  have zero: "?t = 0 \<longrightarrow> match_rate rt rows = JInt 0"
    by (simp add: match_rate_def)
  have rate: "match_rate rt rows = JFloat (py_round ?p 2)" if "?t \<noteq> 0"
    using that t assms by (simp add: match_rate_def ieee_floats_def)
  have grid: "\<exists>k. 0 \<le> k \<and> match_rate rt rows = JFloat (to_double (of_int k / 100))" if "?t \<noteq> 0"
  proof -
    have "0 \<le> ?m * 1" using matched_le_total(2)[of rows] by simp
    have q: "0 \<le> of_int ?m / (of_int ?t :: rat)" using matched_le_total(2)[of rows] t by simp
    have "0 \<le> py_truediv ?m ?t * 100" using to_double_error(2)[OF q] by (simp add: py_truediv_def)
    then have "0 \<le> ?p" using to_double_error(2) by (simp add: py_float_mul_def)
    then have "0 \<le> round_half_even (?p * 10 ^ 2)" by (intro round_half_even_nonneg) simp
    moreover have "py_round ?p 2 = to_double (of_int (round_half_even (?p * 10 ^ 2)) / 100)"
      by (simp add: py_round_def)
    ultimately show ?thesis using rate[OF that] by auto
  qed
  have bound: "\<bar>r - exact_percent rows\<bar> \<le> 1 / 200 + 1 / 2 ^ 42"
    if "?t \<noteq> 0" and "match_rate rt rows = JFloat r" for r
  proof -
    from that t have "0 < ?t" by simp
    from percent_error[OF matched_le_total(2) matched_le_total(1) this] rate[OF that(1)] that(2)
    show ?thesis by (simp add: exact_percent_def)
  qed
  have ex: "\<exists>con' fs' kvs. export_results rt fs rows ams pc con = (con', fs', None)
              \<and> read_json fs' results_path = Inr (JObj kvs)
              \<and> map_of kvs ''total_areas'' = Some (JInt (total_areas rows))
              \<and> map_of kvs ''matched_areas'' = Some (JInt (matched_areas rows))
              \<and> map_of kvs ''match_rate'' = Some (match_rate rt rows)"
    if "output_writable fs" and "history_absent_corrupt_or_array fs" for fs ams pc con
  proof -
    from export_results_completes[OF that] obtain con' fs' where
      e: "export_results rt fs rows ams pc con = (con', fs', None)" by blast
    from export_results_file[OF e] e show ?thesis by simp
  qed
  have l: "total_areas rows = int (length rows)" by (simp add: total_areas_def)
  from l matched_areas_length[of rows] zero rate grid bound ex show ?thesis by blast
qed

lemma rt_sample_ieee: "ieee_floats rt_sample"
  by (simp add: ieee_floats_def rt_sample_def)

theorem match_rate_value_witness:
  "ieee_floats rt_sample
   \<and> total_areas [] = 0 \<and> match_rate rt_sample [] = JInt 0
   \<and> total_areas (sample_rows 2 3) = 3 \<and> matched_areas (sample_rows 2 3) = 2
   \<and> match_rate rt_sample (sample_rows 2 3) = JFloat (to_double (6667 / 100))
   \<and> \<bar>to_double (6667 / 100) - exact_percent (sample_rows 2 3)\<bar> \<le> 1 / 200 + 1 / 2 ^ 42"
proof -
  have t0: "total_areas [] = 0" by (simp add: total_areas_def)
  have t3: "total_areas (sample_rows 2 3) = 3" "matched_areas (sample_rows 2 3) = 2"
    by code_simp+
  have v: "py_round (py_float_mul (py_truediv 2 3) 100) 2 = to_double (6667 / 100)"
    by code_simp
  have nz: "total_areas (sample_rows 2 3) \<noteq> 0" by (simp add: t3)
  note th0 = match_rate_value[OF rt_sample_ieee, of "[]"]
  note th3 = match_rate_value[OF rt_sample_ieee, of "sample_rows 2 3"]
  from th0 t0 have a: "match_rate rt_sample [] = JInt 0" by blast
  from th3 nz have "match_rate rt_sample (sample_rows 2 3) =
      JFloat (py_round (py_float_mul
        (py_truediv (matched_areas (sample_rows 2 3)) (total_areas (sample_rows 2 3))) 100) 2)"
    by blast
  then have b: "match_rate rt_sample (sample_rows 2 3) = JFloat (to_double (6667 / 100))"
    by (simp only: t3 v)
  from th3 nz have "\<forall>r. match_rate rt_sample (sample_rows 2 3) = JFloat r \<longrightarrow>
      \<bar>r - exact_percent (sample_rows 2 3)\<bar> \<le> 1 / 200 + 1 / 2 ^ 42"
    by blast
  with b have c: "\<bar>to_double (6667 / 100) - exact_percent (sample_rows 2 3)\<bar>
      \<le> 1 / 200 + 1 / 2 ^ 42"
    by blast
  from rt_sample_ieee t0 a t3 b c show ?thesis by (intro conjI)
qed

text \<open>
  The claim as written fails where the exact percentage lies midway between two numbers
  with 2 decimal places. With 23 matched Rows of 160 the exact percentage is 14.375,
  which rounds to 14.38, and the script gives the float of 14.37; with 49 of 160 it is
  30.625, which rounds to 30.62, and the script gives the float of 30.63.
\<close>

theorem tie_rounding_counterexample:
  "ieee_floats rt_sample
   \<and> exact_percent (sample_rows 23 160) = 14375 / 1000
   \<and> exact_rate (sample_rows 23 160) = 1438 / 100
   \<and> match_rate rt_sample (sample_rows 23 160) = JFloat (to_double (1437 / 100))
   \<and> to_double (1437 / 100) \<noteq> to_double (1438 / 100)
   \<and> exact_percent (sample_rows 49 160) = 30625 / 1000
   \<and> exact_rate (sample_rows 49 160) = 3062 / 100
   \<and> match_rate rt_sample (sample_rows 49 160) = JFloat (to_double (3063 / 100))
   \<and> to_double (3063 / 100) \<noteq> to_double (3062 / 100)"
proof -
  have a: "exact_percent (sample_rows 23 160) = 14375 / 1000"
    "exact_rate (sample_rows 23 160) = 1438 / 100"
    "match_rate rt_sample (sample_rows 23 160) = JFloat (to_double (1437 / 100))"
    "to_double (1437 / 100) \<noteq> to_double (1438 / 100)"
    by code_simp+
  have b: "exact_percent (sample_rows 49 160) = 30625 / 1000"
    "exact_rate (sample_rows 49 160) = 3062 / 100"
    "match_rate rt_sample (sample_rows 49 160) = JFloat (to_double (3063 / 100))"
    "to_double (3063 / 100) \<noteq> to_double (3062 / 100)"
    by code_simp+
  from rt_sample_ieee a b show ?thesis by (intro conjI)
qed

text \<open>
  Claim C7. When nothing stands in the way of the output and the history file is missing,
  or is rejected by \<^verbatim>\<open>json.load\<close>, or holds a JSON array, the export ends without an
  exception and the history file then holds the old elements (none in the first two
  cases) followed by the new snapshot: one element when the file was missing or corrupt.
\<close>

theorem history_read_modify_write:
  assumes "output_writable fs" and "history_absent_corrupt_or_array fs"
  shows "\<exists>con' fs'. export_results rt fs rows ams pc con = (con', fs', None)
      \<and> read_json fs' history_path = Inr (JArr (old_history fs @ [snapshot rt rows pc]))
      \<and> ((map_of fs history_path = None \<or> map_of fs history_path = Some (File Corrupt))
            \<longrightarrow> read_json fs' history_path = Inr (JArr [snapshot rt rows pc]))"
proof -
  let ?res = "JObj [(''timestamp'', JStr (utc_now_iso rt)),
                (''total_areas'', JInt (total_areas rows)),
                (''matched_areas'', JInt (matched_areas rows)),
                (''match_rate'', match_rate rt rows),
                (''summary_by_party'', JArr (summary_by_party pc)),
                (''matches'', JArr (map match_json ams)),
                (''details'', JArr (map row_json rows))]"
  from makedirs_output[OF assms(1)] obtain fs1 where
    m: "makedirs fs ''docs/data'' = Inr fs1" and d1: "map_of fs1 ''docs/data'' = Some Dir"
    and same: "\<forall>p. p \<noteq> ''docs'' \<and> p \<noteq> ''docs/data'' \<longrightarrow> map_of fs1 p = map_of fs p"
    by blast
  have "map_of fs1 results_path \<noteq> Some Dir"
    using same assms(1) by (simp add: dirname_paths output_writable_def)
  from write_json_ok[OF this, of ?res] d1 obtain fs2 where
    w: "write_json fs1 results_path ?res = Inr fs2"
    by (auto simp: dirname_paths)
  have h2: "map_of fs2 history_path = map_of fs history_path"
    using write_json_lookup[OF w, of history_path] same by (simp add: dirname_paths)
  have d2: "map_of fs2 ''docs/data'' = Some Dir"
    using write_json_lookup[OF w, of "''docs/data''"] d1 by (simp add: dirname_paths)
  have l: "load_history fs2 history_path = JArr (old_history fs)"
    using assms(2) h2
    by (auto simp: load_history_def path_exists_def read_json_def old_history_def
        history_absent_corrupt_or_array_def
        split: option.splits node.splits contents.splits json.splits)
  have nd: "map_of fs2 history_path \<noteq> Some Dir"
    using assms(2) h2 by (auto simp: history_absent_corrupt_or_array_def)
  from write_json_ok[OF nd, of "JArr (old_history fs @ [snapshot rt rows pc])"] d2 obtain fs3 where
    w3: "write_json fs2 history_path (JArr (old_history fs @ [snapshot rt rows pc])) = Inr fs3"
    by (auto simp: dirname_paths)
  have r: "read_json fs3 history_path = Inr (JArr (old_history fs @ [snapshot rt rows pc]))"
    using write_json_lookup[OF w3, of history_path] by (simp add: read_json_def)
  have e: "export_results rt fs rows ams pc con =
      (con @ [Text (CHR 0x0A # ''Results exported to '' @ results_path)]
           @ [Text (''History updated at '' @ history_path)], fs3, None)"
    using m w w3 l
    by (simp add: export_results_def Let_def results_path_def[symmetric] history_path_def[symmetric])
  have o: "(map_of fs history_path = None \<or> map_of fs history_path = Some (File Corrupt))
      \<longrightarrow> old_history fs = []"
    by (auto simp: old_history_def)
  from e r o show ?thesis by auto
qed

theorem history_read_modify_write_witness:
  "output_writable fs_history_corrupt \<and> history_absent_corrupt_or_array fs_history_corrupt
   \<and> map_of fs_history_corrupt history_path = Some (File Corrupt)
   \<and> output_writable fs_sample \<and> map_of fs_sample history_path = None
   \<and> (\<exists>con' fs'. export_results rt_sample fs_history_corrupt [] [] [] [] = (con', fs', None)
         \<and> read_json fs' history_path = Inr (JArr [snapshot rt_sample [] []]))
   \<and> (\<exists>con' fs'. export_results rt_sample fs_sample [] [] [] [] = (con', fs', None)
         \<and> read_json fs' history_path = Inr (JArr [snapshot rt_sample [] []]))"
proof -
  have h: "output_writable fs_history_corrupt" "history_absent_corrupt_or_array fs_history_corrupt"
    "map_of fs_history_corrupt history_path = Some (File Corrupt)"
    "output_writable fs_sample" "history_absent_corrupt_or_array fs_sample"
    "map_of fs_sample history_path = None"
    by code_simp+
  from history_read_modify_write[OF h(1) h(2), of rt_sample "[]" "[]" "[]" "[]"] h(3)
  have a: "\<exists>con' fs'. export_results rt_sample fs_history_corrupt [] [] [] [] = (con', fs', None)
         \<and> read_json fs' history_path = Inr (JArr [snapshot rt_sample [] []])"
    by blast
  from history_read_modify_write[OF h(4) h(5), of rt_sample "[]" "[]" "[]" "[]"] h(6)
  have b: "\<exists>con' fs'. export_results rt_sample fs_sample [] [] [] [] = (con', fs', None)
         \<and> read_json fs' history_path = Inr (JArr [snapshot rt_sample [] []])"
    by blast
  from h a b show ?thesis by (intro conjI)
qed

text \<open>
  A history file that holds a JSON object is read without complaint, and the export then
  ends with the exception of \<^verbatim>\<open>history.append\<close>, after the results file was written.
\<close>

lemma history_not_an_array_raises:
  assumes "output_writable fs"
    and "map_of fs history_path = Some (File (Document (JObj kvs)))"
  shows "snd (snd (export_results rt fs rows ams pc con)) = Some AttributeError"
proof -
  let ?res = "JObj [(''timestamp'', JStr (utc_now_iso rt)),
                (''total_areas'', JInt (total_areas rows)),
                (''matched_areas'', JInt (matched_areas rows)),
                (''match_rate'', match_rate rt rows),
                (''summary_by_party'', JArr (summary_by_party pc)),
                (''matches'', JArr (map match_json ams)),
                (''details'', JArr (map row_json rows))]"
  from makedirs_output[OF assms(1)] obtain fs1 where
    m: "makedirs fs ''docs/data'' = Inr fs1" and d1: "map_of fs1 ''docs/data'' = Some Dir"
    and same: "\<forall>p. p \<noteq> ''docs'' \<and> p \<noteq> ''docs/data'' \<longrightarrow> map_of fs1 p = map_of fs p"
    by blast
  have "map_of fs1 results_path \<noteq> Some Dir"
    using same assms(1) by (simp add: dirname_paths output_writable_def)
  from write_json_ok[OF this, of ?res] d1 obtain fs2 where
    w: "write_json fs1 results_path ?res = Inr fs2"
    by (auto simp: dirname_paths)
  have h2: "map_of fs2 history_path = map_of fs history_path"
    using write_json_lookup[OF w, of history_path] same by (simp add: dirname_paths)
  have l: "load_history fs2 history_path = JObj kvs"
    using assms(2) h2 by (simp add: load_history_def path_exists_def read_json_def)
  show ?thesis
    using m w l
    by (simp add: export_results_def Let_def results_path_def[symmetric] history_path_def[symmetric])
qed

text \<open>
  Claim C9. Without the export flag the run leaves the file system as it found it,
  whatever it reads and whether or not it ends with an exception.
\<close>

theorem no_export_no_write:
  "files (compare_mp_and_pl rt False fs) = fs"
  by (simp add: compare_mp_and_pl_def Let_def split: sum.splits prod.splits)

theorem no_export_no_write_witness:
  "files (compare_mp_and_pl rt_sample False fs_sample) = fs_sample
   \<and> map_of fs_sample results_path = None
   \<and> map_of (files (compare_mp_and_pl rt_sample True fs_sample)) results_path \<noteq> None"
proof -
  have a: "map_of fs_sample results_path = None" by code_simp
  have b: "map_of (files (compare_mp_and_pl rt_sample True fs_sample)) results_path \<noteq> None"
    by code_simp
  from no_export_no_write[of rt_sample fs_sample] a b show ?thesis by (intro conjI)
qed

end
